theory Spec2Isabelle
  imports Complex_Main "HOL-Library.AList"
begin

section \<open>Python values and exceptions\<close>

text \<open>Exceptions of the Python run time and of the library that the modelled
  functions can raise.  A function that can raise returns \<open>pyerr + 'a\<close>.\<close>

datatype pyerr = ValueError | TypeError | KeyError | IndexError | AttributeError
  | XMLDataMissingError | DeviceTimeoutError | ErrorSendingCommandError | ResponseError
  | InvalidXMLError

text \<open>Sequencing of fallible steps: the first exception ends the computation.\<close>

definition ebind :: "pyerr + 'a \<Rightarrow> ('a \<Rightarrow> pyerr + 'b) \<Rightarrow> pyerr + 'b" where
  "ebind m f = (case m of Inl e \<Rightarrow> Inl e | Inr x \<Rightarrow> f x)"

text \<open>An access that raises \<open>e\<close> where Python finds nothing: a missing dictionary
  key, an attribute of \<^verbatim>\<open>None\<close>.\<close>

definition need :: "pyerr \<Rightarrow> 'a option \<Rightarrow> pyerr + 'a" where
  "need e x = (case x of None \<Rightarrow> Inl e | Some v \<Rightarrow> Inr v)"

text \<open>A \<^verbatim>\<open>for\<close> loop whose body can raise: the loop variables are threaded
  through the rounds.\<close>

fun for_each :: "('a \<Rightarrow> 'b \<Rightarrow> pyerr + 'b) \<Rightarrow> 'a list \<Rightarrow> 'b \<Rightarrow> pyerr + 'b" where
  "for_each body [] acc = Inr acc"
| "for_each body (x # xs) acc = ebind (body x acc) (for_each body xs)"

text \<open>\<^verbatim>\<open>str.split(sep)\<close> for a separator of one character: every occurrence
  splits, empty pieces are kept, and the result is never empty.\<close>

fun split_on :: "char \<Rightarrow> string \<Rightarrow> string list" where
  "split_on c [] = [[]]"
| "split_on c (x # xs) =
     (if x = c then [] # split_on c xs
      else (case split_on c xs of
              [] \<Rightarrow> [[x]]
            | w # ws \<Rightarrow> (x # w) # ws))"

text \<open>\<^verbatim>\<open>str.replace(old, "")\<close> for \<open>old\<close> of one character.\<close>

definition remove_char :: "char \<Rightarrow> string \<Rightarrow> string" where
  "remove_char c s = filter (\<lambda>x. x \<noteq> c) s"

text \<open>\<^verbatim>\<open>xs[i]\<close> on a list, for \<open>i \<ge> 0\<close>.\<close>

definition index :: "'a list \<Rightarrow> nat \<Rightarrow> pyerr + 'a" where
  "index xs i = (if i < length xs then Inr (xs ! i) else Inl IndexError)"

section \<open>Times of day\<close>

text \<open>\<^verbatim>\<open>datetime.time\<close> without time zone: Python compares two of them as the
  tuples (hour, minute, second, microsecond).\<close>

record time =
  hour :: nat
  minute :: nat
  second :: nat
  microsecond :: nat

definition time_lt :: "time \<Rightarrow> time \<Rightarrow> bool" where
  "time_lt a b \<longleftrightarrow>
     hour a < hour b \<or> (hour a = hour b \<and>
       (minute a < minute b \<or> (minute a = minute b \<and>
         (second a < second b \<or> (second a = second b \<and>
            microsecond a < microsecond b)))))"

definition time_le :: "time \<Rightarrow> time \<Rightarrow> bool" where
  "time_le a b \<longleftrightarrow> time_lt a b \<or> a = b"

definition valid_time :: "time \<Rightarrow> bool" where
  "valid_time t \<longleftrightarrow>
     hour t < 24 \<and> minute t < 60 \<and> second t < 60 \<and> microsecond t < 1000000"

text \<open>Microseconds since midnight.\<close>

definition time_us :: "time \<Rightarrow> nat" where
  "time_us t = ((hour t * 60 + minute t) * 60 + second t) * 1000000 + microsecond t"

definition hm :: "nat \<Rightarrow> nat \<Rightarrow> time" where
  "hm h m = \<lparr>hour = h, minute = m, second = 0, microsecond = 0\<rparr>"

text \<open>\<^verbatim>\<open>in_between(now, start, end)\<close>; the chained comparison
  \<^verbatim>\<open>start <= now < end\<close> is \<^verbatim>\<open>start <= now and now < end\<close>.\<close>

definition in_between :: "time \<Rightarrow> time \<Rightarrow> time \<Rightarrow> bool" where
  "in_between now start end' =
     (if time_le start end' then time_le start now \<and> time_lt now end'
      else time_le start now \<or> time_lt now end')"

section \<open>The interval table of a schedule\<close>

text \<open>\<^verbatim>\<open>datetime.strptime(s, "%H:%M").time()\<close>.  The format becomes the regular
  expression \<^verbatim>\<open>(2[0-3]|[0-1]\d|\d):([0-5]\d|\d)\<close>, matched at the start of \<open>s\<close>;
  text left after the match is an error as well.  Digits are the ASCII digits.\<close>

definition is_digit :: "char \<Rightarrow> bool" where
  "is_digit c \<longleftrightarrow> c \<in> set ''0123456789''"

definition digit_val :: "char \<Rightarrow> nat" where
  "digit_val c = of_char c - of_char CHR ''0''"

fun match_H :: "string \<Rightarrow> (nat \<times> string) option" where
  "match_H (a # b # r) =
     (if a = CHR ''2'' \<and> b \<in> set ''0123'' then Some (20 + digit_val b, r)
      else if a \<in> set ''01'' \<and> is_digit b then Some (10 * digit_val a + digit_val b, r)
      else if is_digit a then Some (digit_val a, b # r)
      else None)"
| "match_H [a] = (if is_digit a then Some (digit_val a, []) else None)"
| "match_H [] = None"

fun match_M :: "string \<Rightarrow> (nat \<times> string) option" where
  "match_M (a # b # r) =
     (if a \<in> set ''012345'' \<and> is_digit b then Some (10 * digit_val a + digit_val b, r)
      else if is_digit a then Some (digit_val a, b # r)
      else None)"
| "match_M [a] = (if is_digit a then Some (digit_val a, []) else None)"
| "match_M [] = None"

definition strptime_HM :: "string \<Rightarrow> pyerr + time" where
  "strptime_HM s =
     (case match_H s of
        None \<Rightarrow> Inl ValueError
      | Some (h, r) \<Rightarrow>
          (case r of
             [] \<Rightarrow> Inl ValueError
           | c # r' \<Rightarrow>
               if c \<noteq> CHR '':'' then Inl ValueError
               else (case match_M r' of
                       None \<Rightarrow> Inl ValueError
                     | Some (m, rest) \<Rightarrow>
                         if rest = [] then Inr (hm h m) else Inl ValueError)))"

text \<open>The table \<^verbatim>\<open>days\<close> of \<^verbatim>\<open>get_schemas\<close>; \<^verbatim>\<open>days.get(d, "None")\<close> is
  \<open>None\<close> here when the key is absent (the string \<^verbatim>\<open>"None"\<close> equals no weekday).\<close>

definition days :: "(string \<times> nat) list" where
  "days = [(''mo'', 0), (''tu'', 1), (''we'', 2), (''th'', 3), (''fr'', 4),
           (''sa'', 5), (''su'', 6)]"

text \<open>The current moment, read from the clock by \<^verbatim>\<open>datetime.now()\<close>, is an
  explicit input: the weekday (Monday is 0) and the time of day.\<close>

record moment =
  weekday :: nat
  clock :: time

text \<open>One round of the loop over \<^verbatim>\<open>schedules.items()\<close> in \<^verbatim>\<open>get_schemas\<close>:
  the running \<^verbatim>\<open>schedule_temperature\<close> is the state.\<close>

definition schedule_period :: "moment \<Rightarrow> string \<times> 'a \<Rightarrow> 'a option \<Rightarrow> pyerr + 'a option" where
  "schedule_period present entry schedule_temperature =
     (case split_on CHR '','' (fst entry) of
        [m1, m2] \<Rightarrow>
          (let moment_1 = split_on CHR '' '' (remove_char CHR ''['' m1);
               moment_2 = split_on CHR '' '' (remove_char CHR '')'' m2);
               result_1 = map_of days (hd moment_1);
               result_2 = map_of days (hd moment_2);
               now = clock present
           in case index moment_1 1 of
                Inl e \<Rightarrow> Inl e
              | Inr s1 \<Rightarrow>
                 (case strptime_HM s1 of
                    Inl e \<Rightarrow> Inl e
                  | Inr start \<Rightarrow>
                     (case index moment_2 1 of
                        Inl e \<Rightarrow> Inl e
                      | Inr s2 \<Rightarrow>
                         (case strptime_HM s2 of
                            Inl e \<Rightarrow> Inl e
                          | Inr end' \<Rightarrow>
                              if result_1 = Some (weekday present)
                                 \<or> result_2 = Some (weekday present)
                              then (if in_between now start end'
                                    then Inr (Some (snd entry))
                                    else Inr schedule_temperature)
                              else Inr schedule_temperature))))
      | _ \<Rightarrow> Inl ValueError)"

fun schedule_periods :: "moment \<Rightarrow> (string \<times> 'a) list \<Rightarrow> 'a option \<Rightarrow> pyerr + 'a option" where
  "schedule_periods present [] schedule_temperature = Inr schedule_temperature"
| "schedule_periods present (entry # rest) schedule_temperature =
     (case schedule_period present entry schedule_temperature of
        Inl e \<Rightarrow> Inl e
      | Inr t \<Rightarrow> schedule_periods present rest t)"

section \<open>Documents\<close>

text \<open>An element of a parsed document, as \<^verbatim>\<open>lxml.etree\<close> presents it: tag,
  attributes in document order, the text before the first child, the child
  elements, and the text after the closing tag.  Comments and processing
  instructions are left out.\<close>

datatype xml = Element (xml_tag: string) (xml_attrib: "(string \<times> string) list")
  (xml_text: "string option") (xml_children: "xml list") (xml_tail: "string option")

definition attr :: "xml \<Rightarrow> string \<Rightarrow> string option" where
  "attr e k = map_of (xml_attrib e) k"

definition opt_str :: "string option \<Rightarrow> string" where
  "opt_str t = (case t of None \<Rightarrow> [] | Some x \<Rightarrow> x)"

text \<open>\<^verbatim>\<open>"".join(e.itertext())\<close>.\<close>

fun itertext :: "xml \<Rightarrow> string" where
  "itertext (Element t a tx cs ta) =
     opt_str tx @ concat (map (\<lambda>c. itertext c @ opt_str (xml_tail c)) cs)"

text \<open>\<^verbatim>\<open>e.iterdescendants()\<close>: the elements below \<open>e\<close> in document order.\<close>

fun descendants :: "xml \<Rightarrow> xml list" where
  "descendants (Element t a tx cs ta) = concat (map (\<lambda>c. c # descendants c) cs)"

text \<open>The locators of the source, in parsed form.  A locator is a sequence of
  steps; \<^verbatim>\<open>tag\<close> selects children, a leading \<^verbatim>\<open>.//tag\<close> descendants; a step
  can carry the predicates \<^verbatim>\<open>[@name='value']\<close> and \<^verbatim>\<open>[tag='text']\<close>.  The
  source builds its locators by formatting identifiers into a string; the
  parsed form stands for that string as long as the identifier holds no quote.\<close>

datatype predicate = AttrEq string string | ChildText string string

datatype step = Child string "predicate list" | Desc string "predicate list"

fun holds :: "xml \<Rightarrow> predicate \<Rightarrow> bool" where
  "holds e (AttrEq k v) = (attr e k = Some v)"
| "holds e (ChildText t v) =
     list_ex (\<lambda>c. xml_tag c = t \<and> itertext c = v) (xml_children e)"

fun select :: "step \<Rightarrow> xml \<Rightarrow> xml list" where
  "select (Child t ps) e =
     filter (\<lambda>c. xml_tag c = t \<and> list_all (holds c) ps) (xml_children e)"
| "select (Desc t ps) e =
     filter (\<lambda>c. xml_tag c = t \<and> list_all (holds c) ps) (descendants e)"

fun findall :: "step list \<Rightarrow> xml \<Rightarrow> xml list" where
  "findall [] e = [e]"
| "findall (st # p) e = concat (map (findall p) (select st e))"

definition find_xml :: "step list \<Rightarrow> xml \<Rightarrow> xml option" where
  "find_xml p e = (case findall p e of [] \<Rightarrow> None | x # _ \<Rightarrow> Some x)"

section \<open>The client object\<close>

text \<open>Identifiers are strings read from the documents, the integer \<open>0\<close> of the
  synthesized legacy location, or \<^verbatim>\<open>None\<close>.\<close>

datatype pyid = IdNone | IdInt int | IdStr string

text \<open>Python's \<^verbatim>\<open>not x\<close> on an identifier.\<close>

fun falsy :: "pyid \<Rightarrow> bool" where
  "falsy IdNone = True"
| "falsy (IdInt i) = (i = 0)"
| "falsy (IdStr s) = (s = [])"

text \<open>The fields of \<^verbatim>\<open>Smile\<close> that the modelled methods read or write.\<close>

record smile =
  self_appliances :: "xml option"
  self_direct_objects :: "xml option"
  self_domain_objects :: "xml option"
  self_locations :: "xml option"
  self_home_location :: pyid
  self_smile_legacy :: bool
  self_smile_type :: "string option"
  self_smile_name :: "string option"
  self_gateway_id :: pyid
  self_heater_id :: pyid
  self_thermo_master_id :: pyid

text \<open>A method that can raise and can write fields of the object: it returns the
  value or the exception, and the object as it is then.\<close>

type_synonym 'a prog = "smile \<Rightarrow> (pyerr + 'a) \<times> smile"

definition pbind :: "'a prog \<Rightarrow> ('a \<Rightarrow> 'b prog) \<Rightarrow> 'b prog" where
  "pbind m f s = (case m s of (Inl e, s') \<Rightarrow> (Inl e, s') | (Inr x, s') \<Rightarrow> f x s')"

definition lift :: "pyerr + 'a \<Rightarrow> 'a prog" where
  "lift r s = (r, s)"

section \<open>Topology: locations and appliances\<close>

record thermo =
  master :: pyid
  master_prio :: int
  slaves :: "pyid set"

text \<open>The dictionary of one location.  The keys \<^verbatim>\<open>master\<close>, \<^verbatim>\<open>master_prio\<close> and
  \<^verbatim>\<open>slaves\<close> are added together by \<^verbatim>\<open>scan_thermostats\<close>, so they are one
  optional field.\<close>

record location =
  l_name :: "string option"
  l_types :: "string set"
  l_members :: "string set"
  l_thermo :: "thermo option"

record appliance =
  a_name :: "string option"
  a_types :: "string set"
  a_class :: "string option"
  a_location :: pyid

definition HOME_MEASUREMENTS :: "(string \<times> string) list" where
  "HOME_MEASUREMENTS =
     [(''electricity_consumed'', ''power''), (''electricity_produced'', ''power''),
      (''gas_consumed'', ''gas''), (''outdoor_temperature'', ''temperature'')]"

definition types_finder_step :: "xml \<Rightarrow> string \<times> string \<Rightarrow> string set \<Rightarrow> string set" where
  "types_finder_step data entry types =
     (case find_xml [Desc ''logs'' [], Child ''point_log'' [ChildText ''type'' (fst entry)]] data of
        None \<Rightarrow> types
      | Some log_el \<Rightarrow>
          (let types1 = (if fst entry = ''outdoor_temperature''
                         then insert (snd entry) types else types)
           in case find_xml [Desc ''electricity_point_meter'' []] log_el of
                None \<Rightarrow> types1
              | Some meter \<Rightarrow>
                  (case attr meter ''id'' of
                     None \<Rightarrow> types1
                   | Some i \<Rightarrow> if i \<noteq> [] then insert (snd entry) types1 else types1)))"

definition types_finder :: "xml \<Rightarrow> string set" where
  "types_finder data = fold (types_finder_step data) HOME_MEASUREMENTS {}"

text \<open>\<^verbatim>\<open>for x in xs: ids.add(x.attrib["id"])\<close>.\<close>

definition attrib_ids :: "xml list \<Rightarrow> pyerr + string list" where
  "attrib_ids xs =
     for_each (\<lambda>x ids. ebind (need KeyError (attr x ''id'')) (\<lambda>i. Inr (ids @ [i]))) xs []"

text \<open>One round of the loop over the location entries in \<^verbatim>\<open>get_all_locations\<close>;
  the loop variables are \<^verbatim>\<open>home_location\<close> and \<^verbatim>\<open>locations\<close>.\<close>

definition get_all_locations_round ::
  "bool \<Rightarrow> string option \<Rightarrow> xml \<Rightarrow> pyid \<times> (pyid \<times> location) list
     \<Rightarrow> pyerr + pyid \<times> (pyid \<times> location) list" where
  "get_all_locations_round legacy smile_type location acc =
     ebind (need AttributeError (find_xml [Child ''name'' []] location)) (\<lambda>name_el.
     ebind (need KeyError (attr location ''id'')) (\<lambda>location_id.
     ebind (attrib_ids (findall [Desc ''appliances'' [], Child ''appliance'' []] location))
       (\<lambda>location_members.
     ebind (if legacy \<and> smile_type = Some ''power''
            then ebind (need TypeError (find_xml [Desc ''services'' []] location))
                   (\<lambda>services. Inr (0 < length (xml_children services)))
            else Inr False) (\<lambda>services_filled.
       let location_name = xml_text name_el;
           is_home = (location_name = Some ''Home'');
           home_1 = (if is_home then IdStr location_id else fst acc);
           types_1 = (if is_home then insert ''home'' {} \<union> types_finder location else {});
           name_2 = (if services_filled then Some ''Home'' else location_name);
           home_2 = (if services_filled then IdStr location_id else home_1);
           types_2 = (if services_filled then insert ''power'' (insert ''home'' types_1)
                      else types_1)
       in Inr (home_2,
               AList.update (IdStr location_id)
                 \<lparr>l_name = name_2, l_types = types_2,
                  l_members = set location_members, l_thermo = None\<rparr> (snd acc))))))"

definition get_all_locations :: "((pyid \<times> location) list \<times> pyid) prog" where
  "get_all_locations s =
     (case self_locations s of
        None \<Rightarrow> (Inl TypeError, s)
      | Some locs \<Rightarrow>
          if length (xml_children locs) = 0 \<and> self_smile_legacy s
          then (case self_appliances s of
                  None \<Rightarrow> (Inl TypeError, s)
                | Some apps \<Rightarrow>
                    (case attrib_ids (xml_children apps) of
                       Inl e \<Rightarrow> (Inl e, s)
                     | Inr ids \<Rightarrow>
                         (Inr ([(IdInt 0,
                                 \<lparr>l_name = Some ''Legacy'', l_types = {''temperature''},
                                  l_members = set ids, l_thermo = None\<rparr>)], IdInt 0), s)))
          else (case for_each (get_all_locations_round (self_smile_legacy s) (self_smile_type s))
                       (xml_children locs) (IdNone, []) of
                  Inl e \<Rightarrow> (Inl e, s)
                | Inr (home_location, locations) \<Rightarrow>
                    (Inr (locations, home_location),
                     s\<lparr>self_home_location := home_location\<rparr>)))"

text \<open>A \<^verbatim>\<open>for\<close> loop whose body writes fields of the object.\<close>

fun for_prog :: "('a \<Rightarrow> unit prog) \<Rightarrow> 'a list \<Rightarrow> unit prog" where
  "for_prog body [] = lift (Inr ())"
| "for_prog body (x # xs) = pbind (body x) (\<lambda>_. for_prog body xs)"

text \<open>The first loop of \<^verbatim>\<open>get_all_appliances\<close>, which finds the gateway and the
  heater.\<close>

definition find_gateway_heater :: "xml \<Rightarrow> unit prog" where
  "find_gateway_heater appliance =
     pbind (\<lambda>s. case find_xml [Child ''type'' []] appliance of
                   None \<Rightarrow> (Inl AttributeError, s)
                 | Some type_el \<Rightarrow>
                     if xml_text type_el = Some ''gateway''
                     then (case attr appliance ''id'' of
                             None \<Rightarrow> (Inl KeyError, s)
                           | Some i \<Rightarrow> (Inr (), s\<lparr>self_gateway_id := IdStr i\<rparr>))
                     else (Inr (), s))
       (\<lambda>_ s. case find_xml [Child ''type'' []] appliance of
                   None \<Rightarrow> (Inl AttributeError, s)
                 | Some type_el \<Rightarrow>
                     if xml_text type_el = Some ''heater_central''
                     then (case attr appliance ''id'' of
                             None \<Rightarrow> (Inl KeyError, s)
                           | Some i \<Rightarrow> (Inr (), s\<lparr>self_heater_id := IdStr i\<rparr>))
                     else (Inr (), s))"

text \<open>The tag that the actuator of an appliance adds: a relay makes a plug,
  otherwise a thermostat functionality makes a thermostat.\<close>

definition functionality :: "xml \<Rightarrow> string set" where
  "functionality appliance =
     (if find_xml [Desc ''actuator_functionalities'' [], Child ''relay_functionality'' []] appliance
           \<noteq> None
      then {''plug''}
      else if find_xml [Desc ''actuator_functionalities'' [], Child ''thermostat_functionality'' []]
                appliance \<noteq> None
      then {''thermostat''}
      else {})"

text \<open>One round of the second loop of \<^verbatim>\<open>get_all_appliances\<close>.  An appliance
  without a location does not get a set of its own: its \<^verbatim>\<open>types\<close> is the very set
  object of \<^verbatim>\<open>locations[home_location]\<close>, and adding a tag to it changes it for
  every appliance that shares it.  The loop therefore carries the current
  content of that one set, and each stored entry says whether its \<^verbatim>\<open>types\<close> is
  that set (\<open>True\<close>) or a set of its own.\<close>

definition get_all_appliances_round ::
  "pyid \<Rightarrow> pyid \<Rightarrow> string option \<Rightarrow> (pyid \<times> location) list \<Rightarrow> pyid \<Rightarrow> xml
     \<Rightarrow> string set \<times> (pyid \<times> appliance \<times> bool) list
     \<Rightarrow> pyerr + string set \<times> (pyid \<times> appliance \<times> bool) list" where
  "get_all_appliances_round gateway_id heater_id smile_name locations home_location
       appliance acc =
     ebind (need KeyError (attr appliance ''id'')) (\<lambda>id_attr.
     ebind (need AttributeError (find_xml [Child ''type'' []] appliance)) (\<lambda>type_el.
     ebind (need AttributeError (find_xml [Child ''name'' []] appliance)) (\<lambda>name_el.
       let appliance_class = xml_text type_el in
       if appliance_class = Some ''open_therm_gateway'' then Inr acc
       else
         (case find_xml [Child ''location'' []] appliance of
            Some location_el \<Rightarrow>
              ebind (need KeyError (attr location_el ''id'')) (\<lambda>appliance_location.
                Inr (fst acc,
                     AList.update (IdStr id_attr)
                       (\<lparr>a_name = xml_text name_el,
                         a_types = types_finder appliance \<union> functionality appliance,
                         a_class = appliance_class,
                         a_location = IdStr appliance_location\<rparr>, False) (snd acc)))
          | None \<Rightarrow>
              ebind (need KeyError (map_of locations home_location)) (\<lambda>_.
                let appliance_id =
                      (if appliance_class = Some ''gateway'' then gateway_id
                       else if appliance_class = Some ''heater_central'' then heater_id
                       else IdStr id_attr);
                    appliance_name =
                      (if appliance_class = Some ''gateway''
                          \<or> appliance_class = Some ''heater_central''
                       then smile_name else xml_text name_el);
                    home_types = fst acc \<union> functionality appliance
                in Inr (home_types,
                        AList.update appliance_id
                          (\<lparr>a_name = appliance_name, a_types = home_types,
                            a_class = appliance_class, a_location = IdNone\<rparr>, True)
                          (snd acc)))))))"

definition resolve_types :: "string set \<Rightarrow> pyid \<times> appliance \<times> bool \<Rightarrow> pyid \<times> appliance" where
  "resolve_types home_types entry =
     (fst entry,
      if snd (snd entry) then (fst (snd entry))\<lparr>a_types := home_types\<rparr>
      else fst (snd entry))"

text \<open>The three parts of \<^verbatim>\<open>get_all_appliances\<close> after the locations are known:
  the first loop, the legacy thermostat whose gateway and heater are one device,
  and the second loop.\<close>

definition find_gateway_and_heater :: "unit prog" where
  "find_gateway_and_heater s =
     (case self_appliances s of
        None \<Rightarrow> (Inl TypeError, s)
      | Some apps \<Rightarrow> for_prog find_gateway_heater (xml_children apps) s)"

definition legacy_same_device :: "unit prog" where
  "legacy_same_device s =
     (Inr (), if self_smile_legacy s \<and> self_smile_type s = Some ''thermostat''
              then s\<lparr>self_gateway_id := self_heater_id s\<rparr> else s)"

definition appliance_entries :: "(pyid \<times> location) list \<Rightarrow> pyid \<Rightarrow> (pyid \<times> appliance) list prog" where
  "appliance_entries locations home_location s =
     (case self_appliances s of
        None \<Rightarrow> (Inl TypeError, s)
      | Some apps \<Rightarrow>
          (case for_each
                  (get_all_appliances_round (self_gateway_id s) (self_heater_id s)
                     (self_smile_name s) locations home_location)
                  (xml_children apps)
                  (case map_of locations home_location of
                     None \<Rightarrow> {} | Some home \<Rightarrow> l_types home, []) of
             Inl e \<Rightarrow> (Inl e, s)
           | Inr (home_types, entries) \<Rightarrow>
               (Inr (map (resolve_types home_types) entries), s)))"

definition get_all_appliances :: "(pyid \<times> appliance) list prog" where
  "get_all_appliances =
     pbind get_all_locations (\<lambda>(locations, home_location) s.
       if self_smile_legacy s \<and> self_smile_type s = Some ''power''
       then (Inr [(self_home_location s,
                   \<lparr>a_name = Some ''Smile P1'', a_types = {''power'', ''home''},
                    a_class = Some ''gateway'', a_location = home_location\<rparr>)], s)
       else pbind find_gateway_and_heater (\<lambda>_.
            pbind legacy_same_device (\<lambda>_.
              appliance_entries locations home_location)) s)"

text \<open>\<^verbatim>\<open>match_locations\<close>: a location gets the tags of the appliances placed in
  it.\<close>

definition match_location ::
  "(pyid \<times> appliance) list \<Rightarrow> pyid \<times> location \<Rightarrow> (pyid \<times> location) list
     \<Rightarrow> (pyid \<times> location) list" where
  "match_location appliances entry match_locations =
     AList.update (fst entry)
       (fold (\<lambda>a location_details.
                if a_location (snd a) = fst entry
                then location_details\<lparr>l_types := l_types location_details \<union> a_types (snd a)\<rparr>
                else location_details)
          appliances (snd entry))
       match_locations"

definition match_locations :: "((pyid \<times> location) list \<times> pyid) prog" where
  "match_locations =
     pbind get_all_locations (\<lambda>(locations, home_location).
     pbind get_all_appliances (\<lambda>appliances.
       lift (Inr (fold (match_location appliances) locations [], home_location))))"

section \<open>Master and slave thermostats\<close>

definition thermo_matching :: "(string \<times> int) list" where
  "thermo_matching =
     [(''thermostat'', 3), (''zone_thermostat'', 2), (''thermostatic_radiator_valve'', 1)]"

text \<open>\<^verbatim>\<open>thermo_matching[appl_class]\<close> where \<^verbatim>\<open>appl_class in thermo_matching\<close>.\<close>

definition class_prio :: "string option \<Rightarrow> int option" where
  "class_prio appl_class =
     (case appl_class of None \<Rightarrow> None | Some c \<Rightarrow> map_of thermo_matching c)"

text \<open>The election step for one candidate of a zone.\<close>

definition elect :: "pyid \<Rightarrow> int \<Rightarrow> thermo \<Rightarrow> thermo" where
  "elect appliance_id prio th =
     (if prio > master_prio th
      then \<lparr>master = appliance_id, master_prio = prio,
            slaves = (if master th \<noteq> IdNone then insert (master th) (slaves th)
                      else slaves th)\<rparr>
      else th\<lparr>slaves := insert appliance_id (slaves th)\<rparr>)"

text \<open>Whether an appliance is a candidate of the zone \<open>loc_id\<close>.\<close>

definition candidate :: "bool \<Rightarrow> pyid \<Rightarrow> appliance \<Rightarrow> bool" where
  "candidate legacy loc_id appliance_details \<longleftrightarrow>
     (loc_id = a_location appliance_details
        \<or> (legacy \<and> falsy (a_location appliance_details)))
     \<and> class_prio (a_class appliance_details) \<noteq> None"

text \<open>One round of the loop over the appliances in \<^verbatim>\<open>scan_thermostats\<close>.  The
  loop variables are the zone's master and slaves, \<^verbatim>\<open>high_prio\<close> and
  \<^verbatim>\<open>self._thermo_master_id\<close>.\<close>

definition scan_appliance ::
  "bool \<Rightarrow> pyid \<Rightarrow> pyid \<times> appliance \<Rightarrow> thermo \<times> int \<times> pyid \<Rightarrow> thermo \<times> int \<times> pyid" where
  "scan_appliance legacy loc_id entry acc =
     (let th = fst acc; high_prio = fst (snd acc); thermo_master_id = snd (snd acc);
          appliance_id = fst entry; appl_class = a_class (snd entry)
      in case class_prio appl_class of
           None \<Rightarrow> acc
         | Some prio \<Rightarrow>
             (if candidate legacy loc_id (snd entry) then elect appliance_id prio th else th,
              if prio > high_prio then prio else high_prio,
              if prio > high_prio then appliance_id else thermo_master_id))"

text \<open>The loop over the locations: a qualifying location gets its master and
  slaves; the others are left as they are.\<close>

fun scan_locations ::
  "bool \<Rightarrow> pyid \<Rightarrow> (pyid \<times> appliance) list \<Rightarrow> (pyid \<times> location) list \<Rightarrow> int \<times> pyid
     \<Rightarrow> (pyid \<times> location) list \<times> int \<times> pyid" where
  "scan_locations legacy home_location appliances [] acc = ([], acc)"
| "scan_locations legacy home_location appliances ((loc_id, location_details) # rest) acc =
     (if (''thermostat'' \<in> l_types location_details \<and> loc_id \<noteq> home_location)
         \<or> (loc_id = home_location \<and> legacy)
      then
        (let r = fold (scan_appliance legacy loc_id) appliances
                   (\<lparr>master = IdNone, master_prio = 0, slaves = {}\<rparr>, acc);
             done = scan_locations legacy home_location appliances rest (snd r)
         in ((loc_id, location_details\<lparr>l_thermo := Some (fst r)\<rparr>) # fst done, snd done))
      else
        (let done = scan_locations legacy home_location appliances rest acc
         in ((loc_id, location_details) # fst done, snd done)))"

definition scan_thermostats :: "((pyid \<times> location) list \<times> pyid) prog" where
  "scan_thermostats =
     pbind match_locations (\<lambda>(locations, home_location).
     pbind get_all_appliances (\<lambda>appliances s.
       let r = scan_locations (self_smile_legacy s) home_location appliances locations
                 (0, self_thermo_master_id s)
       in (Inr (fst r, home_location), s\<lparr>self_thermo_master_id := snd (snd r)\<rparr>)))"

section \<open>Devices\<close>

text \<open>One round of the loop of \<^verbatim>\<open>get_all_devices\<close>: what the round does to
  \<^verbatim>\<open>details\<close>, and the round.\<close>

definition device_details :: "(pyid \<times> location) list \<Rightarrow> pyid \<Rightarrow> pyid \<times> appliance \<Rightarrow> appliance" where
  "device_details thermo_locations home_location entry =
     (let appliance = fst entry; details = snd entry; loc_id = a_location details;
          details_1 = (if loc_id = IdNone then details\<lparr>a_location := home_location\<rparr>
                       else details)
      in case map_of thermo_locations loc_id of
           None \<Rightarrow> details_1
         | Some loc \<Rightarrow>
             (case l_thermo loc of
                None \<Rightarrow> details_1
              | Some th \<Rightarrow>
                  if appliance \<in> slaves th
                  then details_1\<lparr>a_class := Some ''thermo_sensor''\<rparr>
                  else details_1))"

definition get_all_devices_round ::
  "(pyid \<times> location) list \<Rightarrow> pyid \<Rightarrow> pyid \<times> appliance \<Rightarrow> (pyid \<times> appliance) list
     \<Rightarrow> (pyid \<times> appliance) list" where
  "get_all_devices_round thermo_locations home_location entry devices =
     AList.update (fst entry) (device_details thermo_locations home_location entry) devices"

definition get_all_devices :: "(pyid \<times> appliance) list prog" where
  "get_all_devices =
     pbind get_all_appliances (\<lambda>appliances.
     pbind scan_thermostats (\<lambda>(thermo_locations, home_location).
       lift (Inr (fold (get_all_devices_round thermo_locations home_location) appliances []))))"

section \<open>Fetching the documents\<close>

definition APPLIANCES :: string where "APPLIANCES = ''/core/appliances''"
definition DIRECT_OBJECTS :: string where "DIRECT_OBJECTS = ''/core/direct_objects''"
definition DOMAIN_OBJECTS :: string where "DOMAIN_OBJECTS = ''/core/domain_objects''"
definition LOCATIONS :: string where "LOCATIONS = ''/core/locations''"

text \<open>The transport is outside the model: \<^verbatim>\<open>request(command)\<close> is a parameter
  that gives, for a command, the parsed document, \<^verbatim>\<open>None\<close> (an accepted command
  with an empty body), or the exception it raises.\<close>

type_synonym request = "string \<Rightarrow> pyerr + xml option"

definition update_appliances :: "request \<Rightarrow> unit prog" where
  "update_appliances request s =
     (if self_smile_legacy s \<and> self_smile_type s = Some ''power'' then (Inr (), s)
      else (case request APPLIANCES of
              Inl e \<Rightarrow> (Inl e, s)
            | Inr None \<Rightarrow> (Inr (), s)
            | Inr (Some new_data) \<Rightarrow> (Inr (), s\<lparr>self_appliances := Some new_data\<rparr>)))"

definition update_direct_objects :: "request \<Rightarrow> unit prog" where
  "update_direct_objects request s =
     (if self_smile_legacy s \<and> self_smile_type s = Some ''power'' then (Inr (), s)
      else (case request DIRECT_OBJECTS of
              Inl e \<Rightarrow> (Inl e, s)
            | Inr None \<Rightarrow> (Inr (), s)
            | Inr (Some new_data) \<Rightarrow> (Inr (), s\<lparr>self_direct_objects := Some new_data\<rparr>)))"

definition update_domain_objects :: "request \<Rightarrow> unit prog" where
  "update_domain_objects request s =
     (case request DOMAIN_OBJECTS of
        Inl e \<Rightarrow> (Inl e, s)
      | Inr None \<Rightarrow> (Inr (), s)
      | Inr (Some new_data) \<Rightarrow> (Inr (), s\<lparr>self_domain_objects := Some new_data\<rparr>))"

definition update_locations :: "request \<Rightarrow> unit prog" where
  "update_locations request s =
     (case request LOCATIONS of
        Inl e \<Rightarrow> (Inl e, s)
      | Inr None \<Rightarrow> (Inr (), s)
      | Inr (Some new_data) \<Rightarrow> (Inr (), s\<lparr>self_locations := Some new_data\<rparr>))"

definition full_update_device :: "request \<Rightarrow> unit prog" where
  "full_update_device request =
     pbind (update_appliances request) (\<lambda>_.
     pbind (\<lambda>s. if self_appliances s = None
                    \<and> (self_smile_type s = Some ''power'' \<and> \<not> self_smile_legacy s)
                 then (Inl XMLDataMissingError, s) else (Inr (), s)) (\<lambda>_.
     pbind (update_direct_objects request) (\<lambda>_.
     pbind (\<lambda>s. if self_direct_objects s = None
                    \<and> (self_smile_type s = Some ''power'' \<and> \<not> self_smile_legacy s)
                 then (Inl XMLDataMissingError, s) else (Inr (), s)) (\<lambda>_.
     pbind (update_domain_objects request) (\<lambda>_.
     pbind (\<lambda>s. if self_domain_objects s = None
                 then (Inl XMLDataMissingError, s) else (Inr (), s)) (\<lambda>_.
     pbind (update_locations request) (\<lambda>_.
            (\<lambda>s. if self_locations s = None
                 then (Inl XMLDataMissingError, s) else (Inr (), s)))))))))"

section \<open>Numbers and text\<close>

text \<open>A Python \<^verbatim>\<open>float\<close> is an IEEE 754 double.  \<open>Double negative m e\<close> is the
  finite number \<open>\<plusminus> m \<sqdot> 2\<^sup>e\<close>: zero is \<open>m = 0\<close> with \<open>e = 0\<close>, a normal number
  has \<open>2\<^sup>5\<^sup>2 \<le> m < 2\<^sup>5\<^sup>3\<close> and \<open>-1074 \<le> e \<le> 971\<close>, a subnormal number has
  \<open>0 < m < 2\<^sup>5\<^sup>2\<close> and \<open>e = -1074\<close>, so that every double is written in one way.
  The other values are the two infinities and not-a-number.\<close>

datatype pyfloat = Double bool int int | Infinite bool | NaN

text \<open>The number of binary digits of a positive integer.\<close>

function bit_length :: "int \<Rightarrow> int" where
  "bit_length n = (if n \<le> 0 then 0 else 1 + bit_length (n div 2))"
  by pat_completeness auto
termination
  by (relation "measure nat") auto

declare bit_length.simps [simp del]

text \<open>\<open>2\<^sup>k\<close> for a \<open>k\<close> that is not negative, and 1 otherwise: a fraction
  \<open>a \<sqdot> 2\<^sup>k / b\<close> with an integer \<open>k\<close> is \<open>a \<sqdot> two_up k / (b \<sqdot> two_up (- k))\<close>.\<close>

definition two_up :: "int \<Rightarrow> int" where
  "two_up k = (if 0 \<le> k then 2 ^ nat k else 1)"

definition ten_up :: "int \<Rightarrow> int" where
  "ten_up k = (if 0 \<le> k then 10 ^ nat k else 1)"

text \<open>\<open>\<lfloor>log\<^sub>2 (a / b)\<rfloor>\<close> for positive integers \<open>a\<close> and \<open>b\<close>.\<close>

definition log2_floor :: "int \<Rightarrow> int \<Rightarrow> int" where
  "log2_floor a b =
     (let k = bit_length a - bit_length b
      in if b * two_up k \<le> a * two_up (- k) then k else k - 1)"

text \<open>The integer nearest to \<open>a / b\<close> for \<open>a \<ge> 0\<close> and \<open>b > 0\<close>, ties to the even
  one.\<close>

definition round_half_even :: "int \<Rightarrow> int \<Rightarrow> int" where
  "round_half_even a b =
     (let f = a div b; r = a mod b
      in if 2 * r < b then f else if b < 2 * r then f + 1
         else if even f then f else f + 1)"

text \<open>The double nearest to \<open>a / b\<close> (\<open>a \<ge> 0\<close>, \<open>b > 0\<close>) with the given sign,
  ties to the even significand; what rounds to \<open>2\<^sup>1\<^sup>0\<^sup>2\<^sup>4\<close> or more is an
  infinity.  This is what \<^verbatim>\<open>float(text)\<close> makes of the decimal number that the
  text denotes.\<close>

definition nearest_double :: "bool \<Rightarrow> int \<Rightarrow> int \<Rightarrow> pyfloat" where
  "nearest_double negative a b =
     (if a = 0 then Double negative 0 0
      else
        (let e = log2_floor a b;
             q = max (e - 52) (- 1074);
             n = round_half_even (a * two_up (- q)) (b * two_up q);
             m = (if n = 2 ^ 53 then 2 ^ 52 else n);
             x = (if n = 2 ^ 53 then q + 1 else q)
         in if 971 < x then Infinite negative
            else if m = 0 then Double negative 0 0
            else Double negative m x))"

text \<open>The value of a finite double as a fraction: numerator and denominator.\<close>

definition numerator :: "int \<Rightarrow> int \<Rightarrow> int" where
  "numerator m e = m * two_up e"

definition denominator :: "int \<Rightarrow> int" where
  "denominator e = two_up (- e)"

text \<open>\<^verbatim>\<open>x < c / d\<close> and \<^verbatim>\<open>x > c / d\<close> for a float \<open>x\<close> and integers \<open>c\<close> and
  \<open>d > 0\<close>; a comparison with not-a-number is false.\<close>

fun float_less :: "pyfloat \<Rightarrow> int \<Rightarrow> int \<Rightarrow> bool" where
  "float_less (Double negative m e) c d =
     ((if negative then - 1 else 1) * numerator m e * d < c * denominator e)"
| "float_less (Infinite negative) c d = negative"
| "float_less NaN c d = False"

fun float_greater :: "pyfloat \<Rightarrow> int \<Rightarrow> int \<Rightarrow> bool" where
  "float_greater (Double negative m e) c d =
     (c * denominator e < (if negative then - 1 else 1) * numerator m e * d)"
| "float_greater (Infinite negative) c d = (\<not> negative)"
| "float_greater NaN c d = False"

subsection \<open>Reading numbers\<close>

text \<open>Strings are sequences of the characters 0 to 255.  White space, for
  \<^verbatim>\<open>int\<close> and \<^verbatim>\<open>float\<close>, is tab, line feed, vertical tab, form feed, carriage
  return and space, and next line (133) and no-break space (160).\<close>

definition is_space :: "char \<Rightarrow> bool" where
  "is_space c \<longleftrightarrow> (of_char c :: nat) \<in> {9, 10, 11, 12, 13, 32, 133, 160}"

definition strip :: "string \<Rightarrow> string" where
  "strip s = rev (dropWhile is_space (rev (dropWhile is_space s)))"

definition decimal_value :: "string \<Rightarrow> int" where
  "decimal_value ds = foldl (\<lambda>n c. 10 * n + int (digit_val c)) 0 ds"

definition take_sign :: "string \<Rightarrow> bool \<times> string" where
  "take_sign s =
     (case s of
        [] \<Rightarrow> (False, [])
      | c # r \<Rightarrow> if c = CHR ''-'' then (True, r)
                 else if c = CHR ''+'' then (False, r) else (False, s))"

text \<open>Underscores in a number: \<^verbatim>\<open>int\<close> accepts digits with single underscores
  between them.\<close>

fun grouped_digits :: "string \<Rightarrow> bool" where
  "grouped_digits [] = False"
| "grouped_digits [c] = is_digit c"
| "grouped_digits (c # d # r) =
     (is_digit c \<and> (if d = CHR ''_'' then grouped_digits r else grouped_digits (d # r)))"

text \<open>\<^verbatim>\<open>int(text)\<close>, base 10; \<open>None\<close> stands for \<^verbatim>\<open>ValueError\<close>.  The number of
  digits is not limited (Python 3.11 and later refuse more than 4300).\<close>

definition py_int :: "string \<Rightarrow> int option" where
  "py_int s =
     (let signed = take_sign (dropWhile is_space s);
          ds = takeWhile (\<lambda>c. is_digit c \<or> c = CHR ''_'') (snd signed);
          rest = dropWhile (\<lambda>c. is_digit c \<or> c = CHR ''_'') (snd signed)
      in if grouped_digits ds \<and> list_all is_space rest
         then Some ((if fst signed then - 1 else 1)
                     * decimal_value (filter (\<lambda>c. c \<noteq> CHR ''_'') ds))
         else None)"

text \<open>\<^verbatim>\<open>float\<close> first checks and removes underscores over the whole text: an
  underscore must stand between two digits.\<close>

fun remove_underscores :: "char \<Rightarrow> string \<Rightarrow> string option" where
  "remove_underscores prev [] = (if prev = CHR ''_'' then None else Some [])"
| "remove_underscores prev (c # r) =
     (if c = CHR ''_''
      then (if is_digit prev then remove_underscores c r else None)
      else if prev = CHR ''_'' \<and> \<not> is_digit c then None
      else map_option ((#) c) (remove_underscores c r))"

definition lower :: "string \<Rightarrow> string" where
  "lower s = map (\<lambda>c. if (65::nat) \<le> of_char c \<and> (of_char c :: nat) \<le> 90
                       then char_of (of_char c + (32::nat)) else c) s"

text \<open>The exponent part of a decimal number, or the end of the text.\<close>

definition exponent :: "string \<Rightarrow> int option" where
  "exponent s =
     (case s of
        [] \<Rightarrow> Some 0
      | c # r \<Rightarrow>
          if c = CHR ''e'' \<or> c = CHR ''E''
          then (let signed = take_sign r
                in if snd signed \<noteq> [] \<and> list_all is_digit (snd signed)
                   then Some ((if fst signed then - 1 else 1)
                               * decimal_value (snd signed))
                   else None)
          else None)"

definition parse_decimal :: "bool \<Rightarrow> string \<Rightarrow> pyfloat option" where
  "parse_decimal negative s =
     (let ip = takeWhile is_digit s;
          after = dropWhile is_digit s;
          pointed = (after \<noteq> [] \<and> hd after = CHR ''.'');
          fp = (if pointed then takeWhile is_digit (tl after) else []);
          rest = (if pointed then dropWhile is_digit (tl after) else after)
      in if ip = [] \<and> fp = [] then None
         else (case exponent rest of
                 None \<Rightarrow> None
               | Some e \<Rightarrow>
                   Some (nearest_double negative
                           (decimal_value (ip @ fp) * ten_up (e - int (length fp)))
                           (ten_up (int (length fp) - e)))))"

text \<open>\<^verbatim>\<open>float(text)\<close>; \<open>None\<close> stands for \<^verbatim>\<open>ValueError\<close>.\<close>

definition py_float :: "string \<Rightarrow> pyfloat option" where
  "py_float s =
     (case remove_underscores (CHR 0x00) s of
        None \<Rightarrow> None
      | Some u \<Rightarrow>
          (let signed = take_sign (strip u); word = lower (snd signed)
           in if word = ''inf'' \<or> word = ''infinity''
              then Some (Infinite (fst signed))
              else if word = ''nan'' then Some NaN
              else parse_decimal (fst signed) (snd signed)))"

subsection \<open>Rounding and writing numbers\<close>

text \<open>The magnitude of a finite double in units of \<open>10\<^sup>-\<^sup>k\<close>, rounded to an
  integer, ties to even.\<close>

definition decimals :: "nat \<Rightarrow> int \<Rightarrow> int \<Rightarrow> int" where
  "decimals k m e = round_half_even (numerator m e * 10 ^ k) (denominator e)"

text \<open>\<^verbatim>\<open>round(x, ndigits)\<close> for a float and \<open>ndigits\<close> from 0 to 323: the exact
  value of \<open>x\<close> is rounded to that many decimals, ties to even, and the double
  nearest to the result is returned, with the sign of \<open>x\<close>.\<close>

fun py_round :: "pyfloat \<Rightarrow> nat \<Rightarrow> pyfloat" where
  "py_round (Double negative m e) ndigits =
     nearest_double negative (decimals ndigits m e) (10 ^ ndigits)"
| "py_round x ndigits = x"

text \<open>The decimal digits of an integer that is not negative.\<close>

definition digit_char :: "int \<Rightarrow> char" where
  "digit_char d = ''0123456789'' ! nat d"

function digits10 :: "int \<Rightarrow> string" where
  "digits10 n =
     (if n < 10 then [digit_char n]
      else digits10 (n div 10) @ [digit_char (n mod 10)])"
  by pat_completeness auto
termination
  by (relation "measure nat") auto

declare digits10.simps [simp del]

text \<open>The digits of \<open>n / 10\<^sup>k\<close> with \<open>k\<close> decimals.\<close>

definition fixed :: "nat \<Rightarrow> int \<Rightarrow> string" where
  "fixed k n =
     (let ds = digits10 n;
          padded = replicate (Suc k - length ds) CHR ''0'' @ ds
      in take (length padded - k) padded
         @ (if k = 0 then [] else CHR ''.'' # drop (length padded - k) padded))"

text \<open>\<^verbatim>\<open>"{:.kf}".format(x)\<close> for a float.\<close>

fun format_f :: "nat \<Rightarrow> pyfloat \<Rightarrow> string" where
  "format_f k (Double negative m e) =
     (if negative then ''-'' else []) @ fixed k (decimals k m e)"
| "format_f k (Infinite negative) = (if negative then ''-inf'' else ''inf'')"
| "format_f k NaN = ''nan''"

subsection \<open>Measurements\<close>

text \<open>The values that the device records hold.\<close>

datatype pyval = VNone | VInt int | VFloat pyfloat | VBool bool | VStr string
  | VList "pyval list" | VDict "(string \<times> pyval) list"

text \<open>\<^verbatim>\<open>_format_measure\<close>.  The text of an element can be \<^verbatim>\<open>None\<close>, on which
  \<^verbatim>\<open>int\<close> raises \<^verbatim>\<open>TypeError\<close>.  Where \<^verbatim>\<open>float\<close> is called inside the
  \<^verbatim>\<open>try\<close>, any of its failures leads to the \<^verbatim>\<open>except\<close> branch.\<close>

definition format_measure :: "string option \<Rightarrow> pyerr + pyval" where
  "format_measure measure_text =
     (case measure_text of
        None \<Rightarrow> Inl TypeError
      | Some s \<Rightarrow>
          (case py_int s of
             Some n \<Rightarrow> Inr (VInt n)
           | None \<Rightarrow>
               (case (case py_float s of
                        None \<Rightarrow> None
                      | Some x \<Rightarrow>
                          if float_less x 10 1
                          then py_float (format_f 2 (py_round x 2))
                          else py_float (format_f 1 (py_round x 1))) of
                  Some y \<Rightarrow> Inr (VFloat y)
                | None \<Rightarrow>
                    Inr (if s = ''on'' then VBool True
                         else if s = ''off'' then VBool False
                         else VStr s))))"

section \<open>Measurements of an appliance\<close>

definition DEVICE_MEASUREMENTS :: "(string \<times> string) list" where
  "DEVICE_MEASUREMENTS =
     [(''thermostat'', ''setpoint''),
      (''temperature'', ''temperature''),
      (''schedule_temperature'', ''schedule_temperature''),
      (''battery'', ''battery''),
      (''valve_position'', ''valve_position''),
      (''temperature_difference'', ''temperature_difference''),
      (''electricity_consumed'', ''electricity_consumed''),
      (''electricity_produced'', ''electricity_produced''),
      (''relay'', ''relay''),
      (''outdoor_temperature'', ''outdoor_temperature''),
      (''intended_central_heating_state'', ''heating_state''),
      (''domestic_hot_water_state'', ''dhw_state''),
      (''boiler_temperature'', ''water_temperature''),
      (''return_water_temperature'', ''return_temperature''),
      (''central_heater_water_pressure'', ''water_pressure''),
      (''boiler_state'', ''boiler_state''),
      (''intended_boiler_state'', ''intended_boiler_state''),
      (''intended_boiler_temperature'', ''intended_boiler_temperature''),
      (''modulation_level'', ''modulation_level''),
      (''cooling_state'', ''cooling_state''),
      (''slave_boiler_state'', ''slave_boiler_state''),
      (''compressor_state'', ''compressor_state''),
      (''flame_state'', ''flame_state'')]"

text \<open>\<^verbatim>\<open>"{}".format(dev_id)\<close>.\<close>

fun str_of_id :: "pyid \<Rightarrow> string" where
  "str_of_id IdNone = ''None''"
| "str_of_id (IdInt i) = (if i < 0 then ''-'' @ digits10 (- i) else digits10 i)"
| "str_of_id (IdStr s) = s"

text \<open>\<^verbatim>\<open>float(measure)\<close> on the text of an element, outside any \<^verbatim>\<open>try\<close>.\<close>

definition float_arg :: "string option \<Rightarrow> pyerr + pyfloat" where
  "float_arg measure_text =
     (case measure_text of
        None \<Rightarrow> Inl TypeError
      | Some s \<Rightarrow> need ValueError (py_float s))"

text \<open>The locator \<^verbatim>\<open>.//logs/<log>[type='<measurement>']/period/measurement\<close>.\<close>

definition log_locator :: "string \<Rightarrow> string \<Rightarrow> step list" where
  "log_locator log_type measurement =
     [Desc ''logs'' [], Child log_type [ChildText ''type'' measurement],
      Child ''period'' [], Child ''measurement'' []]"

text \<open>One round of the inner loop of \<^verbatim>\<open>get_appliance_data\<close>, for one entry of
  \<^verbatim>\<open>DEVICE_MEASUREMENTS\<close>.  The point log comes first; its result is \<open>None\<close>
  where the source says \<^verbatim>\<open>continue\<close>, which ends the round before anything is
  written.  Then come the interval log and the cumulative log, each of which
  extends \<^verbatim>\<open>name\<close>.\<close>

definition point_log_value ::
  "bool \<Rightarrow> xml \<Rightarrow> string \<times> string \<Rightarrow> (string \<times> pyval) list
     \<Rightarrow> pyerr + (string \<times> pyval) list option" where
  "point_log_value legacy appliance entry data =
     (case find_xml (log_locator ''point_log'' (fst entry)) appliance of
        None \<Rightarrow> Inr (Some data)
      | Some el \<Rightarrow>
          if legacy \<and> fst entry = ''domestic_hot_water_state'' then Inr None
          else
            ebind (if fst entry = ''central_heater_water_pressure''
                   then ebind (float_arg (xml_text el)) (\<lambda>x. Inr (float_greater x 7 2))
                   else Inr False) (\<lambda>unrealistic.
              if unrealistic then Inr None
              else ebind (format_measure (xml_text el)) (\<lambda>v.
                     Inr (Some (AList.update (snd entry) v data)))))"

definition measurement_round ::
  "bool \<Rightarrow> xml \<Rightarrow> string \<times> string \<Rightarrow> (string \<times> pyval) list
     \<Rightarrow> pyerr + (string \<times> pyval) list" where
  "measurement_round legacy appliance entry data =
     ebind (point_log_value legacy appliance entry data) (\<lambda>after_point.
       case after_point of
         None \<Rightarrow> Inr data
       | Some data_1 \<Rightarrow>
           ebind (case find_xml (log_locator ''interval_log'' (fst entry)) appliance of
                    None \<Rightarrow> Inr (snd entry, data_1)
                  | Some el \<Rightarrow>
                      ebind (format_measure (xml_text el)) (\<lambda>v.
                        Inr (snd entry @ ''_interval'',
                             AList.update (snd entry @ ''_interval'') v data_1)))
             (\<lambda>after_interval.
                case find_xml (log_locator ''cumulative_log'' (fst entry)) appliance of
                  None \<Rightarrow> Inr (snd after_interval)
                | Some el \<Rightarrow>
                    ebind (format_measure (xml_text el)) (\<lambda>v.
                      Inr (AList.update (fst after_interval @ ''_cumulative'') v
                             (snd after_interval)))))"

text \<open>The appliance elements that \<^verbatim>\<open>get_appliance_data\<close> searches: those with
  the identifier, in the appliances document or, on a legacy dialect, in the
  domain objects.\<close>

definition device_elements :: "pyid \<Rightarrow> smile \<Rightarrow> pyerr + xml list" where
  "device_elements dev_id s =
     ebind (need AttributeError
              (if self_smile_legacy s then self_domain_objects s else self_appliances s))
       (\<lambda>search. Inr (findall [Desc ''appliance'' [AttrEq ''id'' (str_of_id dev_id)]] search))"

definition get_appliance_data :: "pyid \<Rightarrow> smile \<Rightarrow> pyerr + (string \<times> pyval) list" where
  "get_appliance_data dev_id s =
     ebind (device_elements dev_id s) (\<lambda>appliances.
       for_each (\<lambda>appliance data.
                   for_each (measurement_round (self_smile_legacy s) appliance)
                     DEVICE_MEASUREMENTS data)
         appliances [])"

section \<open>Notions used in the properties\<close>

text \<open>The candidates of a zone in scan order, each with the priority of its
  class.\<close>

definition zone_candidates :: "bool \<Rightarrow> pyid \<Rightarrow> (pyid \<times> appliance) list \<Rightarrow> (pyid \<times> int) list" where
  "zone_candidates legacy loc_id appliances =
     concat (map (\<lambda>entry. case class_prio (a_class (snd entry)) of
                             None \<Rightarrow> []
                           | Some prio \<Rightarrow>
                               if candidate legacy loc_id (snd entry)
                               then [(fst entry, prio)] else [])
               appliances)"

text \<open>The fields that the resolution never writes: the four documents and the
  dialect.\<close>

definition documents ::
  "smile \<Rightarrow> xml option \<times> xml option \<times> xml option \<times> xml option \<times> bool \<times> string option
     \<times> string option" where
  "documents s = (self_appliances s, self_direct_objects s, self_domain_objects s,
     self_locations s, self_smile_legacy s, self_smile_type s, self_smile_name s)"

text \<open>The zone before the scan: no master, priority 0, no slaves.\<close>

definition no_thermo :: thermo where
  "no_thermo = \<lparr>master = IdNone, master_prio = 0, slaves = {}\<rparr>"


text \<open>What the loops keep true of the dictionaries they build: keys are not
  repeated; no appliance of class \<^verbatim>\<open>open_therm_gateway\<close> is stored, and an
  appliance of a thermostat class is stored under an identifier read from the
  document; a location is stored under an identifier that is not \<^verbatim>\<open>None\<close> and,
  before the scan, carries no master.\<close>

definition entries_ok :: "(pyid \<times> appliance \<times> bool) list \<Rightarrow> bool" where
  "entries_ok es \<longleftrightarrow> distinct (map fst es)
     \<and> (\<forall>e \<in> set es. a_class (fst (snd e)) \<noteq> Some ''open_therm_gateway''
           \<and> (class_prio (a_class (fst (snd e))) \<noteq> None \<longrightarrow> (\<exists>i. fst e = IdStr i)))"

definition appliances_ok :: "(pyid \<times> appliance) list \<Rightarrow> bool" where
  "appliances_ok apps \<longleftrightarrow> distinct (map fst apps)
     \<and> (\<forall>e \<in> set apps. a_class (snd e) \<noteq> Some ''open_therm_gateway''
           \<and> (class_prio (a_class (snd e)) \<noteq> None \<longrightarrow> (\<exists>i. fst e = IdStr i)))"

definition locations_ok :: "(pyid \<times> location) list \<Rightarrow> bool" where
  "locations_ok locs \<longleftrightarrow> distinct (map fst locs)
     \<and> (\<forall>e \<in> set locs. fst e \<noteq> IdNone \<and> l_thermo (snd e) = None)"


text \<open>The mantissa of a finite number is not negative; the sign is kept apart.\<close>

definition finite_ok :: "pyfloat \<Rightarrow> bool" where
  "finite_ok x = (case x of Double negative m e \<Rightarrow> 0 \<le> m | _ \<Rightarrow> True)"

text \<open>The text of the water-pressure point log of an appliance element, if it
  has one; and what the element does to the key \<^verbatim>\<open>water_pressure\<close> of the data:
  a reading above 3.5 leaves the key as it was, any other reading sets it to the
  formatted reading.\<close>

definition pressure_reading :: "xml \<Rightarrow> string option option" where
  "pressure_reading appliance =
     map_option xml_text
       (find_xml (log_locator ''point_log'' ''central_heater_water_pressure'') appliance)"

definition pressure_kept :: "xml \<Rightarrow> pyval option \<Rightarrow> pyval option" where
  "pressure_kept appliance before =
     (case pressure_reading appliance of
        Some (Some t) \<Rightarrow>
          (case py_float t of
             Some x \<Rightarrow>
               if float_greater x 7 2 then before
               else (case format_measure (Some t) of Inr v \<Rightarrow> Some v | Inl e \<Rightarrow> before)
           | None \<Rightarrow> before)
      | _ \<Rightarrow> before)"


section \<open>Example snapshots\<close>

definition leaf :: "string \<Rightarrow> string \<Rightarrow> xml" where
  "leaf t v = Element t [] (Some v) [] None"

definition node :: "string \<Rightarrow> (string \<times> string) list \<Rightarrow> xml list \<Rightarrow> xml" where
  "node t a cs = Element t a None cs None"


text \<open>A legacy thermostat whose locations document is empty, with three
  appliances.\<close>

definition three_appliances :: xml where
  "three_appliances = Element ''appliances'' [] None
         [Element ''appliance'' [(''id'', ''a1'')] None [] None,
          Element ''appliance'' [(''id'', ''a2'')] None [] None,
          Element ''appliance'' [(''id'', ''a3'')] None [] None] None"


definition legacy_anna :: smile where
  "legacy_anna =
     \<lparr>self_appliances = Some three_appliances,
      self_direct_objects = None, self_domain_objects = None,
      self_locations = Some (Element ''locations'' [] None [] None),
      self_home_location = IdNone, self_smile_legacy = True,
      self_smile_type = Some ''thermostat'', self_smile_name = Some ''Anna'',
      self_gateway_id = IdNone, self_heater_id = IdNone, self_thermo_master_id = IdNone\<rparr>"


text \<open>A current installation: a gateway, an OpenTherm gateway, and a radiator
  valve and two zone thermostats in the living room; then what the methods
  return for it.\<close>

definition thermostat_functionality :: xml where
  "thermostat_functionality =
     node ''actuator_functionalities'' [] [node ''thermostat_functionality'' [] []]"

definition adam_appliances :: xml where
  "adam_appliances = node ''appliances'' []
     [node ''appliance'' [(''id'', ''gw'')] [leaf ''name'' ''Adam'', leaf ''type'' ''gateway''],
      node ''appliance'' [(''id'', ''ot'')]
        [leaf ''name'' ''OpenTherm'', leaf ''type'' ''open_therm_gateway''],
      node ''appliance'' [(''id'', ''trv'')]
        [leaf ''name'' ''Tom'', leaf ''type'' ''thermostatic_radiator_valve'',
         node ''location'' [(''id'', ''living'')] [], thermostat_functionality],
      node ''appliance'' [(''id'', ''zt'')]
        [leaf ''name'' ''Lisa'', leaf ''type'' ''zone_thermostat'',
         node ''location'' [(''id'', ''living'')] [], thermostat_functionality],
      node ''appliance'' [(''id'', ''zt2'')]
        [leaf ''name'' ''Lisa 2'', leaf ''type'' ''zone_thermostat'',
         node ''location'' [(''id'', ''living'')] [], thermostat_functionality]]"

definition adam_locations :: xml where
  "adam_locations = node ''locations'' []
     [node ''location'' [(''id'', ''home'')] [leaf ''name'' ''Home''],
      node ''location'' [(''id'', ''living'')] [leaf ''name'' ''Living room'']]"

definition adam :: smile where
  "adam = \<lparr>self_appliances = Some adam_appliances, self_direct_objects = None,
      self_domain_objects = None, self_locations = Some adam_locations,
      self_home_location = IdNone, self_smile_legacy = False,
      self_smile_type = Some ''thermostat'', self_smile_name = Some ''Adam'',
      self_gateway_id = IdNone, self_heater_id = IdNone, self_thermo_master_id = IdNone\<rparr>"

definition adam_polled :: smile where
  "adam_polled = adam\<lparr>self_home_location := IdStr ''home'', self_gateway_id := IdStr ''gw''\<rparr>"

definition living :: location where
  "living = \<lparr>l_name = Some ''Living room'', l_types = {''thermostat''}, l_members = {},
     l_thermo = None\<rparr>"

definition adam_topology :: "(pyid \<times> location) list" where
  "adam_topology =
     [(IdStr ''home'', \<lparr>l_name = Some ''Home'', l_types = {''home''}, l_members = {},
                         l_thermo = None\<rparr>),
      (IdStr ''living'', living)]"

definition adam_inventory :: "(pyid \<times> appliance) list" where
  "adam_inventory =
     [(IdStr ''gw'', \<lparr>a_name = Some ''Adam'', a_types = {''home''},
                      a_class = Some ''gateway'', a_location = IdNone\<rparr>),
      (IdStr ''trv'', \<lparr>a_name = Some ''Tom'', a_types = {''thermostat''},
                       a_class = Some ''thermostatic_radiator_valve'',
                       a_location = IdStr ''living''\<rparr>),
      (IdStr ''zt'', \<lparr>a_name = Some ''Lisa'', a_types = {''thermostat''},
                      a_class = Some ''zone_thermostat'', a_location = IdStr ''living''\<rparr>),
      (IdStr ''zt2'', \<lparr>a_name = Some ''Lisa 2'', a_types = {''thermostat''},
                       a_class = Some ''zone_thermostat'', a_location = IdStr ''living''\<rparr>)]"

definition adam_zones :: "(pyid \<times> location) list" where
  "adam_zones =
     [(IdStr ''home'', \<lparr>l_name = Some ''Home'', l_types = {''home''}, l_members = {},
                         l_thermo = None\<rparr>),
      (IdStr ''living'',
       living\<lparr>l_thermo := Some \<lparr>master = IdStr ''zt'', master_prio = 2,
                                   slaves = {IdStr ''trv'', IdStr ''zt2''}\<rparr>\<rparr>)]"

definition adam_scanned :: smile where
  "adam_scanned = adam_polled\<lparr>self_thermo_master_id := IdStr ''zt''\<rparr>"

definition adam_devices :: "(pyid \<times> appliance) list" where
  "adam_devices =
     [(IdStr ''gw'', \<lparr>a_name = Some ''Adam'', a_types = {''home''},
                      a_class = Some ''gateway'', a_location = IdStr ''home''\<rparr>),
      (IdStr ''trv'', \<lparr>a_name = Some ''Tom'', a_types = {''thermostat''},
                       a_class = Some ''thermo_sensor'', a_location = IdStr ''living''\<rparr>),
      (IdStr ''zt'', \<lparr>a_name = Some ''Lisa'', a_types = {''thermostat''},
                      a_class = Some ''zone_thermostat'', a_location = IdStr ''living''\<rparr>),
      (IdStr ''zt2'', \<lparr>a_name = Some ''Lisa 2'', a_types = {''thermostat''},
                       a_class = Some ''thermo_sensor'', a_location = IdStr ''living''\<rparr>)]"


text \<open>A current P1 gateway that has no document yet, and a transport that
  returns every document but the appliances.\<close>

definition p1_fresh :: smile where
  "p1_fresh = \<lparr>self_appliances = None, self_direct_objects = None,
      self_domain_objects = None, self_locations = None,
      self_home_location = IdNone, self_smile_legacy = False,
      self_smile_type = Some ''power'', self_smile_name = Some ''P1'',
      self_gateway_id = IdNone, self_heater_id = IdNone, self_thermo_master_id = IdNone\<rparr>"

definition no_appliances :: request where
  "no_appliances command =
     (if command = APPLIANCES then Inr None else Inr (Some (node ''document'' [] [])))"


text \<open>A boiler that reports its water temperature and a water pressure.\<close>

definition point_log :: "string \<Rightarrow> string \<Rightarrow> xml" where
  "point_log measurement reading =
     node ''point_log'' []
       [leaf ''type'' measurement, node ''period'' [] [leaf ''measurement'' reading]]"

definition heater :: "string \<Rightarrow> xml" where
  "heater pressure =
     node ''appliance'' [(''id'', ''heater'')]
       [leaf ''type'' ''heater_central'',
        node ''logs'' []
          [point_log ''boiler_temperature'' ''45.0'',
           point_log ''central_heater_water_pressure'' pressure]]"

definition boiler :: "string \<Rightarrow> smile" where
  "boiler pressure =
     \<lparr>self_appliances = Some (node ''appliances'' [] [heater pressure]),
      self_direct_objects = None, self_domain_objects = None, self_locations = None,
      self_home_location = IdNone, self_smile_legacy = False,
      self_smile_type = Some ''thermostat'', self_smile_name = Some ''Adam'',
      self_gateway_id = IdNone, self_heater_id = IdNone, self_thermo_master_id = IdNone\<rparr>"

section \<open>Properties\<close>

subsection \<open>Sequencing and loops\<close>

lemma ebind_Inr_iff: "ebind m f = Inr r \<longleftrightarrow> (\<exists>x. m = Inr x \<and> f x = Inr r)"
  by (cases m) (simp_all add: ebind_def)

lemma need_Inr_iff: "need e x = Inr v \<longleftrightarrow> x = Some v"
  by (cases x) (simp_all add: need_def)

lemma pbind_Inr_iff:
  "pbind m f s = (Inr r, s') \<longleftrightarrow> (\<exists>x s1. m s = (Inr x, s1) \<and> f x s1 = (Inr r, s'))"
  by (auto simp: pbind_def split: prod.splits sum.splits)

lemma lift_simp [simp]: "lift r s = (r, s)"
  by (simp add: lift_def)

lemma for_each_invariant:
  assumes "for_each body xs acc = Inr r" and "P acc"
    and "\<And>x a a'. x \<in> set xs \<Longrightarrow> P a \<Longrightarrow> body x a = Inr a' \<Longrightarrow> P a'"
  shows "P r"
  using assms
proof (induction xs arbitrary: acc)
  case Nil
  then show ?case by simp
next
  case (Cons x xs)
  from Cons.prems(1) obtain a' where step: "body x acc = Inr a'"
    and rest: "for_each body xs a' = Inr r"
    by (auto simp: ebind_Inr_iff)
  have now: "P a'" using Cons.prems(3) [of x acc a'] Cons.prems(2) step by simp
  show ?case
  proof (rule Cons.IH [OF rest now])
    fix y a b
    assume "y \<in> set xs" and "P a" and "body y a = Inr b"
    then show "P b" using Cons.prems(3) [of y a b] by simp
  qed
qed


subsection \<open>Dictionaries built in a loop\<close>

lemma set_update_subset: "set (AList.update k v al) \<subseteq> insert (k, v) (set al)"
  by (induction al) auto

lemma update_fresh: "k \<notin> fst ` set al \<Longrightarrow> AList.update k v al = al @ [(k, v)]"
  by (induction al) auto

lemma fold_update_distinct:
  "distinct (map fst xs) \<Longrightarrow> fst ` set xs \<inter> fst ` set acc = {} \<Longrightarrow>
   fold (\<lambda>e. AList.update (fst e) (f e)) xs acc = acc @ map (\<lambda>e. (fst e, f e)) xs"
proof (induction xs arbitrary: acc)
  case Nil
  then show ?case by simp
next
  case (Cons x xs)
  have fresh: "fst x \<notin> fst ` set acc" using Cons.prems(2) by auto
  have "fst ` set xs \<inter> fst ` set (acc @ [(fst x, f x)]) = {}"
    using Cons.prems by auto
  with Cons.IH [of "acc @ [(fst x, f x)]"] Cons.prems(1) fresh
  show ?case by (simp add: update_fresh)
qed

lemma fold_update_dict:
  "distinct (map fst xs) \<Longrightarrow>
   fold (\<lambda>e. AList.update (fst e) (f e)) xs [] = map (\<lambda>e. (fst e, f e)) xs"
  using fold_update_distinct [of xs "[]" f] by simp

subsection \<open>Interval matching\<close>

lemma time_lt_us:
  "valid_time a \<Longrightarrow> valid_time b \<Longrightarrow> time_lt a b \<longleftrightarrow> time_us a < time_us b"
  unfolding valid_time_def time_lt_def time_us_def by fastforce

lemma time_eq_us:
  "valid_time a \<Longrightarrow> valid_time b \<Longrightarrow> a = b \<longleftrightarrow> time_us a = time_us b"
proof
  assume "a = b"
  then show "time_us a = time_us b" by simp
next
  assume v: "valid_time a" "valid_time b" and e: "time_us a = time_us b"
  have "\<not> time_lt a b" "\<not> time_lt b a"
    using v e by (simp_all add: time_lt_us)
  then have "hour a = hour b \<and> minute a = minute b \<and> second a = second b
      \<and> microsecond a = microsecond b"
    unfolding time_lt_def by (metis linorder_neqE_nat)
  then show "a = b" by simp
qed

lemma time_le_us:
  "valid_time a \<Longrightarrow> valid_time b \<Longrightarrow> time_le a b \<longleftrightarrow> time_us a \<le> time_us b"
  unfolding time_le_def using time_lt_us [of a b] time_eq_us [of a b] by auto

text \<open>C5.  For times of day \<open>now\<close>, \<open>start\<close> and \<open>end\<close>, \<open>in_between\<close> holds exactly
  when \<open>start \<le> now < end\<close> if \<open>start \<le> end\<close>, and exactly when \<open>start \<le> now\<close> or
  \<open>now < end\<close> otherwise (a half-open interval that wraps around midnight), the
  order being the order of the moments in the day.  In particular, on a Monday
  the interval \<^verbatim>\<open>[mo 06:00,mo 22:00)\<close> gives its setpoint at 10:00 and nothing at
  23:00, where the interval \<^verbatim>\<open>[mo 22:00,mo 06:00)\<close> gives its setpoint.\<close>

theorem in_between_half_open_wrap_around:
  "(\<forall>now start end'. valid_time now \<and> valid_time start \<and> valid_time end' \<longrightarrow>
      (in_between now start end' \<longleftrightarrow>
         (if time_us start \<le> time_us end'
          then time_us start \<le> time_us now \<and> time_us now < time_us end'
          else time_us start \<le> time_us now \<or> time_us now < time_us end')))
   \<and> schedule_periods \<lparr>weekday = 0, clock = hm 10 0\<rparr> [(''[mo 06:00,mo 22:00)'', t)] None
       = Inr (Some t)
   \<and> schedule_periods \<lparr>weekday = 0, clock = hm 23 0\<rparr> [(''[mo 06:00,mo 22:00)'', t)] None
       = Inr None
   \<and> schedule_periods \<lparr>weekday = 0, clock = hm 23 0\<rparr> [(''[mo 22:00,mo 06:00)'', t)] None
       = Inr (Some t)"
proof -
  have general: "\<forall>now start end'. valid_time now \<and> valid_time start \<and> valid_time end' \<longrightarrow>
      (in_between now start end' \<longleftrightarrow>
         (if time_us start \<le> time_us end'
          then time_us start \<le> time_us now \<and> time_us now < time_us end'
          else time_us start \<le> time_us now \<or> time_us now < time_us end'))"
    by (simp add: in_between_def time_le_us time_lt_us)
  have examples:
    "schedule_periods \<lparr>weekday = 0, clock = hm 10 0\<rparr> [(''[mo 06:00,mo 22:00)'', t)] None
       = Inr (Some t)"
    "schedule_periods \<lparr>weekday = 0, clock = hm 23 0\<rparr> [(''[mo 06:00,mo 22:00)'', t)] None
       = Inr None"
    "schedule_periods \<lparr>weekday = 0, clock = hm 23 0\<rparr> [(''[mo 22:00,mo 06:00)'', t)] None
       = Inr (Some t)"
    by (simp_all add: schedule_period_def remove_char_def index_def strptime_HM_def
        is_digit_def digit_val_def hm_def days_def in_between_def time_le_def time_lt_def)
  from general examples show ?thesis by blast
qed

theorem in_between_half_open_wrap_around_witness:
  "valid_time (hm 23 0) \<and> valid_time (hm 22 0) \<and> valid_time (hm 6 0)
   \<and> in_between (hm 23 0) (hm 22 0) (hm 6 0) \<and> \<not> in_between (hm 23 0) (hm 6 0) (hm 22 0)
   \<and> in_between (hm 10 0) (hm 6 0) (hm 22 0)"
  using in_between_half_open_wrap_around
          [THEN conjunct1, rule_format, of "hm 23 0" "hm 22 0" "hm 6 0"]
        in_between_half_open_wrap_around
          [THEN conjunct1, rule_format, of "hm 23 0" "hm 6 0" "hm 22 0"]
        in_between_half_open_wrap_around
          [THEN conjunct1, rule_format, of "hm 10 0" "hm 6 0" "hm 22 0"]
  by (simp add: valid_time_def hm_def time_us_def)

subsection \<open>Fetching the documents\<close>

text \<open>C2, as amended.  When every request returns, a full poll of a current
  power gateway ends in the missing-XML-data error exactly when one of the four
  documents is absent afterwards, so an absent appliances or direct-objects
  document is fatal for it; a legacy power gateway fetches neither of these two
  documents and the poll ends in that error exactly when the domain-objects or
  the locations document is absent; and an absent domain-objects or locations
  document ends the poll in that error whatever the dialect.\<close>

theorem full_update_device_missing_documents:
  assumes "full_update_device request s = (r, s')"
    and "\<forall>c. \<exists>d. request c = Inr d"
  shows "(self_smile_type s = Some ''power'' \<and> \<not> self_smile_legacy s \<longrightarrow>
            (r = Inl XMLDataMissingError \<longleftrightarrow>
               self_appliances s' = None \<or> self_direct_objects s' = None
               \<or> self_domain_objects s' = None \<or> self_locations s' = None))
       \<and> (self_smile_type s = Some ''power'' \<and> self_smile_legacy s \<longrightarrow>
            self_appliances s' = self_appliances s
            \<and> self_direct_objects s' = self_direct_objects s
            \<and> (r = Inl XMLDataMissingError \<longleftrightarrow>
                 self_domain_objects s' = None \<or> self_locations s' = None))
       \<and> (self_domain_objects s' = None \<or> self_locations s' = None \<longrightarrow>
            r = Inl XMLDataMissingError)"
proof -
  from assms(2) obtain ra rd ro rl where resp:
    "request APPLIANCES = Inr ra" "request DIRECT_OBJECTS = Inr rd"
    "request DOMAIN_OBJECTS = Inr ro" "request LOCATIONS = Inr rl"
    by metis
  show ?thesis
    using assms(1) resp
    unfolding full_update_device_def update_appliances_def update_direct_objects_def
      update_domain_objects_def update_locations_def pbind_def
    by (cases ra; cases rd; cases ro; cases rl) (auto split: if_splits)
qed

theorem full_update_device_missing_documents_witness:
  "(\<exists>d. no_appliances APPLIANCES = Inr d)
   \<and> self_smile_type p1_fresh = Some ''power'' \<and> \<not> self_smile_legacy p1_fresh
   \<and> self_appliances (snd (full_update_device no_appliances p1_fresh)) = None
   \<and> fst (full_update_device no_appliances p1_fresh) = Inl XMLDataMissingError"
proof -
  have run: "full_update_device no_appliances p1_fresh
      = (fst (full_update_device no_appliances p1_fresh),
         snd (full_update_device no_appliances p1_fresh))"
    by simp
  have returns: "\<forall>c. \<exists>d. no_appliances c = Inr d"
    by (simp add: no_appliances_def)
  have absent: "self_appliances (snd (full_update_device no_appliances p1_fresh)) = None"
    by (simp add: full_update_device_def update_appliances_def pbind_def p1_fresh_def
        no_appliances_def)
  have dialect: "self_smile_type p1_fresh = Some ''power'' \<and> \<not> self_smile_legacy p1_fresh"
    by (simp add: p1_fresh_def)
  from full_update_device_missing_documents [OF run returns] dialect absent
  have "fst (full_update_device no_appliances p1_fresh) = Inl XMLDataMissingError"
    by blast
  with returns dialect absent show ?thesis by blast
qed

text \<open>The claim as stated makes an absent appliances document fatal for the
  dialects that are neither legacy nor power, and only for them.  A current
  power gateway whose appliances request returns nothing ends the poll in the
  error.\<close>

theorem full_update_device_power_counterexample:
  "self_smile_type p1_fresh = Some ''power'' \<and> \<not> self_smile_legacy p1_fresh
   \<and> no_appliances APPLIANCES = Inr None
   \<and> full_update_device no_appliances p1_fresh = (Inl XMLDataMissingError, p1_fresh)"
  by (simp add: full_update_device_def update_appliances_def pbind_def p1_fresh_def
      no_appliances_def)

subsection \<open>Locations\<close>

lemma attrib_ids_acc:
  "\<forall>a \<in> set xs. attr a ''id'' \<noteq> None \<Longrightarrow>
   for_each (\<lambda>x ids. ebind (need KeyError (attr x ''id'')) (\<lambda>i. Inr (ids @ [i]))) xs acc
     = Inr (acc @ map (\<lambda>a. the (attr a ''id'')) xs)"
  by (induction xs arbitrary: acc) (auto simp: ebind_def need_def)

lemma attrib_ids_total:
  "\<forall>a \<in> set xs. attr a ''id'' \<noteq> None \<Longrightarrow>
   attrib_ids xs = Inr (map (\<lambda>a. the (attr a ''id'')) xs)"
  using attrib_ids_acc [of xs "[]"] by (simp add: attrib_ids_def)


text \<open>C6.  On a legacy dialect whose locations document has no entry, with an
  appliances document whose entries all carry an identifier,
  \<^verbatim>\<open>get_all_locations\<close> returns exactly one location, under the identifier 0,
  tagged \<^verbatim>\<open>temperature\<close> only, whose members are the identifiers of all
  entries of the appliances document; it returns 0 as the home location and
  writes no field of the object.\<close>

theorem get_all_locations_legacy_without_locations:
  assumes "self_smile_legacy s" and "self_locations s = Some locs"
    and "xml_children locs = []" and "self_appliances s = Some apps"
    and "\<forall>a \<in> set (xml_children apps). attr a ''id'' \<noteq> None"
  shows "\<exists>home. get_all_locations s = (Inr ([(IdInt 0, home)], IdInt 0), s)
           \<and> l_name home = Some ''Legacy'' \<and> l_types home = {''temperature''}
           \<and> l_members home = {i. \<exists>a \<in> set (xml_children apps). attr a ''id'' = Some i}
           \<and> l_thermo home = None"
proof -
  have "set (map (\<lambda>a. the (attr a ''id'')) (xml_children apps))
        = {i. \<exists>a \<in> set (xml_children apps). attr a ''id'' = Some i}"
    using assms(5) by force
  then show ?thesis
    using assms by (simp add: get_all_locations_def attrib_ids_total)
qed

theorem get_all_locations_legacy_without_locations_witness:
  "\<exists>home. get_all_locations legacy_anna = (Inr ([(IdInt 0, home)], IdInt 0), legacy_anna)
      \<and> l_types home = {''temperature''} \<and> l_members home = {''a1'', ''a2'', ''a3''}"
proof -
  have members: "{i. \<exists>a \<in> set (xml_children three_appliances). attr a ''id'' = Some i}
       = {''a1'', ''a2'', ''a3''}"
    by (auto simp: attr_def three_appliances_def)
  have "self_smile_legacy legacy_anna"
    and "self_locations legacy_anna = Some (Element ''locations'' [] None [] None)"
    and "xml_children (Element ''locations'' [] None [] None) = []"
    and "self_appliances legacy_anna = Some three_appliances"
    and "\<forall>a \<in> set (xml_children three_appliances). attr a ''id'' \<noteq> None"
    by (simp_all add: legacy_anna_def three_appliances_def attr_def)
  from get_all_locations_legacy_without_locations [OF this] members
  show ?thesis by auto
qed

lemma locations_ok_update:
  assumes "locations_ok locs" and "k \<noteq> IdNone" and "l_thermo d = None"
  shows "locations_ok (AList.update k d locs)"
proof -
  have "distinct (map fst (AList.update k d locs))"
    using assms(1) by (simp add: locations_ok_def distinct_update)
  moreover have "\<forall>e \<in> set (AList.update k d locs). fst e \<noteq> IdNone \<and> l_thermo (snd e) = None"
  proof
    fix e
    assume "e \<in> set (AList.update k d locs)"
    then have "e = (k, d) \<or> e \<in> set locs"
      using set_update_subset [of k d locs] by blast
    then show "fst e \<noteq> IdNone \<and> l_thermo (snd e) = None"
      using assms unfolding locations_ok_def by auto
  qed
  ultimately show ?thesis by (simp add: locations_ok_def)
qed

lemma get_all_locations_round_ok:
  assumes "get_all_locations_round legacy ty x acc = Inr acc'" and "locations_ok (snd acc)"
  shows "locations_ok (snd acc')"
proof -
  from assms(1) obtain h k d where "acc' = (h, AList.update (IdStr k) d (snd acc))"
    and "l_thermo d = None"
    unfolding get_all_locations_round_def
    by (auto simp: ebind_Inr_iff Let_def)
  then show ?thesis using assms(2) by (simp add: locations_ok_update)
qed

lemma get_all_locations_ok:
  assumes "get_all_locations s = (Inr (locs, home), s')"
  shows "locations_ok locs"
proof (cases "self_locations s")
  case None
  with assms show ?thesis by (simp add: get_all_locations_def)
next
  case (Some doc)
  show ?thesis
  proof (cases "length (xml_children doc) = 0 \<and> self_smile_legacy s")
    case True
    with Some assms show ?thesis
      by (auto simp: get_all_locations_def locations_ok_def split: option.splits sum.splits)
  next
    case False
    with Some assms have loop:
      "for_each (get_all_locations_round (self_smile_legacy s) (self_smile_type s))
         (xml_children doc) (IdNone, []) = Inr (home, locs)"
      by (auto simp: get_all_locations_def split: sum.splits)
    have "locations_ok (snd (home, locs))"
    proof (rule for_each_invariant [OF loop, where P = "\<lambda>acc. locations_ok (snd acc)"])
      show "locations_ok (snd (IdNone, []))" by (simp add: locations_ok_def)
    next
      fix x a a'
      assume "locations_ok (snd a)"
        and "get_all_locations_round (self_smile_legacy s) (self_smile_type s) x a = Inr a'"
      then show "locations_ok (snd a')" using get_all_locations_round_ok by blast
    qed
    then show ?thesis by simp
  qed
qed

subsection \<open>The documents are never written\<close>

lemma documents_updates [simp]:
  "documents (s\<lparr>self_home_location := h\<rparr>) = documents s"
  "documents (s\<lparr>self_gateway_id := g\<rparr>) = documents s"
  "documents (s\<lparr>self_heater_id := g\<rparr>) = documents s"
  "documents (s\<lparr>self_thermo_master_id := g\<rparr>) = documents s"
  by (simp_all add: documents_def)

lemma pbind_documents:
  assumes "\<And>s. documents (snd (m s)) = documents s"
    and "\<And>x s. documents (snd (f x s)) = documents s"
  shows "documents (snd (pbind m f s)) = documents s"
proof (cases "m s")
  case (Pair r s1)
  then have d: "documents s1 = documents s" using assms(1) [of s] by simp
  show ?thesis
  proof (cases r)
    case (Inl e)
    with Pair d show ?thesis by (simp add: pbind_def)
  next
    case (Inr x)
    with Pair d assms(2) [of x s1] show ?thesis by (simp add: pbind_def)
  qed
qed

lemma get_all_locations_documents: "documents (snd (get_all_locations s)) = documents s"
  by (simp add: get_all_locations_def split: option.splits sum.splits prod.splits)

lemma find_gateway_heater_documents: "documents (snd (find_gateway_heater a s)) = documents s"
  unfolding find_gateway_heater_def
  by (rule pbind_documents) (simp_all split: option.splits)

lemma for_prog_documents:
  assumes "\<And>x s. documents (snd (body x s)) = documents s"
  shows "documents (snd (for_prog body xs s)) = documents s"
proof (induction xs arbitrary: s)
  case Nil
  show ?case by simp
next
  case (Cons x xs)
  show ?case
    unfolding for_prog.simps
    by (rule pbind_documents) (simp_all add: assms Cons.IH)
qed

lemma find_gateway_and_heater_documents:
  "documents (snd (find_gateway_and_heater s)) = documents s"
  by (simp add: find_gateway_and_heater_def for_prog_documents find_gateway_heater_documents
      split: option.splits)

lemma legacy_same_device_documents: "documents (snd (legacy_same_device s)) = documents s"
  by (simp add: legacy_same_device_def)

lemma appliance_entries_documents:
  "documents (snd (appliance_entries locations home_location s)) = documents s"
  by (simp add: appliance_entries_def split: option.splits sum.splits prod.splits)

lemma get_all_appliances_documents: "documents (snd (get_all_appliances s)) = documents s"
  unfolding get_all_appliances_def
  by (intro pbind_documents get_all_locations_documents)
     (simp add: split_def pbind_documents find_gateway_and_heater_documents
        legacy_same_device_documents appliance_entries_documents)

lemma match_locations_documents: "documents (snd (match_locations s)) = documents s"
  unfolding match_locations_def
  by (intro pbind_documents get_all_locations_documents)
     (simp add: split_def pbind_documents get_all_appliances_documents)

subsection \<open>Appliances\<close>

lemma class_prio_gateway [simp]:
  "class_prio (Some ''gateway'') = None" "class_prio (Some ''heater_central'') = None"
  by (simp_all add: class_prio_def thermo_matching_def)

lemma class_prio_range: "class_prio c = Some p \<Longrightarrow> p \<in> {1, 2, 3}"
  by (auto simp: class_prio_def thermo_matching_def split: option.splits if_splits)

lemma entries_ok_update:
  assumes "entries_ok es" and "a_class d \<noteq> Some ''open_therm_gateway''"
    and "class_prio (a_class d) \<noteq> None \<longrightarrow> (\<exists>i. k = IdStr i)"
  shows "entries_ok (AList.update k (d, b) es)"
proof -
  have "distinct (map fst (AList.update k (d, b) es))"
    using assms(1) by (simp add: entries_ok_def distinct_update)
  moreover have "\<forall>e \<in> set (AList.update k (d, b) es).
      a_class (fst (snd e)) \<noteq> Some ''open_therm_gateway''
      \<and> (class_prio (a_class (fst (snd e))) \<noteq> None \<longrightarrow> (\<exists>i. fst e = IdStr i))"
  proof
    fix e
    assume "e \<in> set (AList.update k (d, b) es)"
    then have "e = (k, (d, b)) \<or> e \<in> set es"
      using set_update_subset [of k "(d, b)" es] by blast
    then show "a_class (fst (snd e)) \<noteq> Some ''open_therm_gateway''
      \<and> (class_prio (a_class (fst (snd e))) \<noteq> None \<longrightarrow> (\<exists>i. fst e = IdStr i))"
    proof
      assume "e = (k, (d, b))"
      then show ?thesis using assms(2,3) by simp
    next
      assume "e \<in> set es"
      then show ?thesis using assms(1) unfolding entries_ok_def by blast
    qed
  qed
  ultimately show ?thesis by (simp add: entries_ok_def)
qed

lemma get_all_appliances_round_ok:
  assumes "get_all_appliances_round g h n locations home a acc = Inr acc'"
    and "entries_ok (snd acc)"
  shows "entries_ok (snd acc')"
proof -
  from assms(1) obtain id_attr type_el name_el where
    r: "(if xml_text type_el = Some ''open_therm_gateway'' then Inr acc
         else (case find_xml [Child ''location'' []] a of
            Some location_el \<Rightarrow>
              ebind (need KeyError (attr location_el ''id'')) (\<lambda>appliance_location.
                Inr (fst acc,
                     AList.update (IdStr id_attr)
                       (\<lparr>a_name = xml_text name_el,
                         a_types = types_finder a \<union> functionality a,
                         a_class = xml_text type_el,
                         a_location = IdStr appliance_location\<rparr>, False) (snd acc)))
          | None \<Rightarrow>
              ebind (need KeyError (map_of locations home)) (\<lambda>_.
                let appliance_id =
                      (if xml_text type_el = Some ''gateway'' then g
                       else if xml_text type_el = Some ''heater_central'' then h
                       else IdStr id_attr);
                    appliance_name =
                      (if xml_text type_el = Some ''gateway''
                          \<or> xml_text type_el = Some ''heater_central''
                       then n else xml_text name_el);
                    home_types = fst acc \<union> functionality a
                in Inr (home_types,
                        AList.update appliance_id
                          (\<lparr>a_name = appliance_name, a_types = home_types,
                            a_class = xml_text type_el, a_location = IdNone\<rparr>, True)
                          (snd acc))))) = Inr acc'"
    unfolding get_all_appliances_round_def by (auto simp: ebind_Inr_iff Let_def)
  show ?thesis
  proof (cases "xml_text type_el = Some ''open_therm_gateway''")
    case True
    with r assms(2) show ?thesis by simp
  next
    case False
    show ?thesis
    proof (cases "find_xml [Child ''location'' []] a")
      case (Some location_el)
      with r False obtain l where
        "acc' = (fst acc, AList.update (IdStr id_attr)
                       (\<lparr>a_name = xml_text name_el,
                         a_types = types_finder a \<union> functionality a,
                         a_class = xml_text type_el,
                         a_location = IdStr l\<rparr>, False) (snd acc))"
        by (auto simp: ebind_Inr_iff)
      then show ?thesis using assms(2) False by (simp add: entries_ok_update)
    next
      case None
      with r False obtain k nm where
        acc': "acc' = (fst acc \<union> functionality a, AList.update k
                          (\<lparr>a_name = nm, a_types = fst acc \<union> functionality a,
                            a_class = xml_text type_el, a_location = IdNone\<rparr>, True)
                          (snd acc))"
        and k: "k = (if xml_text type_el = Some ''gateway'' then g
                       else if xml_text type_el = Some ''heater_central'' then h
                       else IdStr id_attr)"
        by (auto simp: ebind_Inr_iff Let_def)
      have "class_prio (xml_text type_el) \<noteq> None \<longrightarrow> (\<exists>i. k = IdStr i)"
        using k by auto
      then show ?thesis using assms(2) False acc' by (simp add: entries_ok_update)
    qed
  qed
qed

lemma resolve_types_ok: "entries_ok es \<Longrightarrow> appliances_ok (map (resolve_types t) es)"
  by (auto simp: entries_ok_def appliances_ok_def resolve_types_def comp_def)

lemma appliance_entries_ok:
  assumes "appliance_entries locations home s = (Inr apps, s')"
  shows "appliances_ok apps"
proof -
  from assms obtain xs t es where
    loop: "for_each (get_all_appliances_round (self_gateway_id s) (self_heater_id s)
                     (self_smile_name s) locations home) xs
                  (case map_of locations home of
                     None \<Rightarrow> {} | Some home \<Rightarrow> l_types home, []) = Inr (t, es)"
    and apps: "apps = map (resolve_types t) es"
    by (auto simp: appliance_entries_def split: option.splits sum.splits)
  have "entries_ok (snd (t, es))"
  proof (rule for_each_invariant [OF loop, where P = "\<lambda>acc. entries_ok (snd acc)"])
    show "entries_ok (snd (case map_of locations home of
                     None \<Rightarrow> {} | Some home \<Rightarrow> l_types home, []))"
      by (simp add: entries_ok_def)
  next
    fix x a a'
    assume "entries_ok (snd a)"
      and "get_all_appliances_round (self_gateway_id s) (self_heater_id s)
                     (self_smile_name s) locations home x a = Inr a'"
    then show "entries_ok (snd a')" using get_all_appliances_round_ok by blast
  qed
  then show ?thesis using apps by (simp add: resolve_types_ok)
qed

lemma get_all_appliances_ok:
  assumes "get_all_appliances s = (Inr apps, s')"
  shows "appliances_ok apps"
proof -
  from assms obtain locations home s1 where
    rest: "(if self_smile_legacy s1 \<and> self_smile_type s1 = Some ''power''
       then (Inr [(self_home_location s1,
                   \<lparr>a_name = Some ''Smile P1'', a_types = {''power'', ''home''},
                    a_class = Some ''gateway'', a_location = home\<rparr>)], s1)
       else pbind find_gateway_and_heater (\<lambda>_.
            pbind legacy_same_device (\<lambda>_.
              appliance_entries locations home)) s1) = (Inr apps, s')"
    by (auto simp: get_all_appliances_def pbind_Inr_iff)
  show ?thesis
  proof (cases "self_smile_legacy s1 \<and> self_smile_type s1 = Some ''power''")
    case True
    with rest show ?thesis by (auto simp: appliances_ok_def)
  next
    case False
    with rest obtain s2 where "appliance_entries locations home s2 = (Inr apps, s')"
      by (auto simp: pbind_Inr_iff)
    then show ?thesis by (rule appliance_entries_ok)
  qed
qed

lemma match_fold_thermo:
  "l_thermo (fold (\<lambda>a location_details.
                if a_location (snd a) = k
                then location_details\<lparr>l_types := l_types location_details \<union> a_types (snd a)\<rparr>
                else location_details) apps d) = l_thermo d"
  by (induction apps arbitrary: d) auto

lemma match_locations_ok:
  assumes "match_locations s = (Inr (mlocs, home), s')"
  shows "locations_ok mlocs"
proof -
  from assms obtain locs s1 apps where
    locs: "get_all_locations s = (Inr (locs, home), s1)"
    and mlocs: "mlocs = fold (match_location apps) locs []"
    by (auto simp: match_locations_def pbind_Inr_iff)
  have ok: "locations_ok locs" using locs by (rule get_all_locations_ok)
  let ?f = "\<lambda>e. fold (\<lambda>a location_details.
                if a_location (snd a) = fst e
                then location_details\<lparr>l_types := l_types location_details \<union> a_types (snd a)\<rparr>
                else location_details) apps (snd e)"
  have "match_location apps = (\<lambda>e. AList.update (fst e) (?f e))"
    by (intro ext) (simp add: match_location_def)
  then have "mlocs = map (\<lambda>e. (fst e, ?f e)) locs"
    using mlocs ok fold_update_dict [of locs ?f] by (simp add: locations_ok_def)
  then show ?thesis
    using ok by (auto simp: locations_ok_def comp_def match_fold_thermo)
qed

subsection \<open>The election in a zone\<close>

lemma scan_appliance_fold:
  "fst (fold (scan_appliance legacy loc_id) apps (th, acc))
     = fold (\<lambda>c. elect (fst c) (snd c)) (zone_candidates legacy loc_id apps) th"
proof (induction apps arbitrary: th acc)
  case Nil
  show ?case by (simp add: zone_candidates_def)
next
  case (Cons a apps)
  obtain th1 acc1 where step: "scan_appliance legacy loc_id a (th, acc) = (th1, acc1)"
    by (cases "scan_appliance legacy loc_id a (th, acc)")
  have th1: "th1 = fold (\<lambda>c. elect (fst c) (snd c)) (zone_candidates legacy loc_id [a]) th"
    using step
    by (auto simp: scan_appliance_def zone_candidates_def Let_def candidate_def
        split: option.splits if_splits)
  have "zone_candidates legacy loc_id (a # apps)
        = zone_candidates legacy loc_id [a] @ zone_candidates legacy loc_id apps"
    by (simp add: zone_candidates_def)
  then show ?case using Cons.IH [of th1 acc1] step th1 by simp
qed

lemma scan_locations_map:
  "fst (scan_locations legacy home apps locs acc)
     = map (\<lambda>e. if (''thermostat'' \<in> l_types (snd e) \<and> fst e \<noteq> home)
                    \<or> (fst e = home \<and> legacy)
                 then (fst e, (snd e)\<lparr>l_thermo :=
                        Some (fold (\<lambda>c. elect (fst c) (snd c))
                                (zone_candidates legacy (fst e) apps) no_thermo)\<rparr>)
                 else e) locs"
proof (induction locs arbitrary: acc)
  case Nil
  show ?case by simp
next
  case (Cons e locs)
  obtain k d where e: "e = (k, d)" by (cases e)
  show ?case
    using Cons.IH scan_appliance_fold [of legacy k apps no_thermo acc]
    by (simp add: e Let_def no_thermo_def)
qed

lemma zone_candidates_keys:
  "map fst (zone_candidates legacy loc_id apps)
     = map fst (filter (\<lambda>e. candidate legacy loc_id (snd e)) apps)"
  by (induction apps) (auto simp: zone_candidates_def candidate_def split: option.splits)

lemma zone_candidates_distinct:
  "distinct (map fst apps) \<Longrightarrow> distinct (map fst (zone_candidates legacy loc_id apps))"
  by (simp add: zone_candidates_keys distinct_map_filter)

lemma zone_candidates_set:
  "c \<in> set (zone_candidates legacy loc_id apps) \<Longrightarrow>
     \<exists>e \<in> set apps. fst c = fst e \<and> class_prio (a_class (snd e)) = Some (snd c)"
proof (induction apps)
  case Nil
  then show ?case by (simp add: zone_candidates_def)
next
  case (Cons a apps)
  have split: "zone_candidates legacy loc_id (a # apps)
        = zone_candidates legacy loc_id [a] @ zone_candidates legacy loc_id apps"
    by (simp add: zone_candidates_def)
  show ?case
  proof (cases "c \<in> set (zone_candidates legacy loc_id [a])")
    case True
    then have "fst c = fst a \<and> class_prio (a_class (snd a)) = Some (snd c)"
      by (auto simp: zone_candidates_def split: option.splits if_splits)
    then show ?thesis by auto
  next
    case False
    with Cons.prems split have "c \<in> set (zone_candidates legacy loc_id apps)" by simp
    with Cons.IH show ?thesis by auto
  qed
qed

lemma elect_prio: "master_prio (elect k p th) = max p (master_prio th)"
  by (simp add: elect_def)

lemma elect_fold_prio:
  "master_prio (fold (\<lambda>c. elect (fst c) (snd c)) cs th)
     = Max (insert (master_prio th) (snd ` set cs))"
proof (induction cs arbitrary: th)
  case Nil
  show ?case by simp
next
  case (Cons c cs)
  have "Max (insert (max (snd c) (master_prio th)) (snd ` set cs))
        = Max (insert (master_prio th) (insert (snd c) (snd ` set cs)))"
    by (cases "cs = []") (simp_all add: max.commute max.left_commute)
  then show ?case using Cons.IH [of "elect (fst c) (snd c) th"]
    by (simp add: elect_prio)
qed

lemma elect_fold_master_aux:
  "M = Max (insert (master_prio th) (snd ` set cs)) \<Longrightarrow>
   master (fold (\<lambda>c. elect (fst c) (snd c)) cs th)
     = (if M = master_prio th then master th
        else (case List.find (\<lambda>c. snd c = M) cs of
                None \<Rightarrow> master th | Some c \<Rightarrow> fst c))"
proof (induction cs arbitrary: th)
  case Nil
  then show ?case by simp
next
  case (Cons c cs)
  let ?th1 = "elect (fst c) (snd c) th"
  have "Max (insert (master_prio ?th1) (snd ` set cs))
        = Max (insert (master_prio th) (snd ` set (c # cs)))"
    by (cases "cs = []") (simp_all add: elect_prio max.commute max.left_commute)
  then have M1: "M = Max (insert (master_prio ?th1) (snd ` set cs))"
    using Cons.prems by simp
  have ge: "master_prio th \<le> M" "snd c \<le> M"
    unfolding Cons.prems by (rule Max_ge; simp)+
  note IH = Cons.IH [OF M1]
  show ?case
  proof (cases "snd c > master_prio th")
    case True
    then have th1: "master ?th1 = fst c" "master_prio ?th1 = snd c"
      by (simp_all add: elect_def)
    have ne: "M \<noteq> master_prio th" using True ge by linarith
    have "M \<in> insert (master_prio th) (snd ` set (c # cs))"
      unfolding Cons.prems by (rule Max_in) simp_all
    then have "M \<noteq> snd c \<Longrightarrow> List.find (\<lambda>c. snd c = M) cs \<noteq> None"
      using ne by (auto simp: find_None_iff)
    then show ?thesis
      using IH th1 ne by (auto split: option.splits)
  next
    case False
    then have th1: "master ?th1 = master th" "master_prio ?th1 = master_prio th"
      by (simp_all add: elect_def)
    have "M \<noteq> master_prio th \<Longrightarrow> snd c \<noteq> M" using False ge by linarith
    then show ?thesis
      using IH th1 by (auto split: option.splits)
  qed
qed

lemma elect_fold_disjoint:
  assumes "distinct (map fst cs)"
    and "slaves th \<inter> fst ` set cs = {}"
    and "master th \<noteq> IdNone \<longrightarrow> master th \<notin> slaves th \<and> master th \<notin> fst ` set cs"
  shows "master (fold (\<lambda>c. elect (fst c) (snd c)) cs th) \<noteq> IdNone \<longrightarrow>
         master (fold (\<lambda>c. elect (fst c) (snd c)) cs th)
           \<notin> slaves (fold (\<lambda>c. elect (fst c) (snd c)) cs th)"
  using assms
proof (induction cs arbitrary: th)
  case Nil
  then show ?case by simp
next
  case (Cons c cs)
  let ?th1 = "elect (fst c) (snd c) th"
  have "distinct (map fst cs)" using Cons.prems(1) by simp
  moreover have "slaves ?th1 \<inter> fst ` set cs = {}"
    using Cons.prems by (auto simp: elect_def)
  moreover have "master ?th1 \<noteq> IdNone \<longrightarrow> master ?th1 \<notin> slaves ?th1
      \<and> master ?th1 \<notin> fst ` set cs"
    using Cons.prems by (auto simp: elect_def)
  ultimately show ?case using Cons.IH [of ?th1] by simp
qed

lemma elect_fold_members:
  assumes "\<forall>c \<in> set cs. fst c \<noteq> IdNone"
  shows "slaves (fold (\<lambda>c. elect (fst c) (snd c)) cs th)
           \<union> (if master (fold (\<lambda>c. elect (fst c) (snd c)) cs th) = IdNone then {}
               else {master (fold (\<lambda>c. elect (fst c) (snd c)) cs th)})
         = slaves th \<union> (if master th = IdNone then {} else {master th}) \<union> fst ` set cs"
  using assms
proof (induction cs arbitrary: th)
  case Nil
  show ?case by simp
next
  case (Cons c cs)
  let ?th1 = "elect (fst c) (snd c) th"
  have "slaves ?th1 \<union> (if master ?th1 = IdNone then {} else {master ?th1})
        = insert (fst c) (slaves th \<union> (if master th = IdNone then {} else {master th}))"
    using Cons.prems by (auto simp: elect_def)
  then show ?case using Cons.IH [of ?th1] Cons.prems by auto
qed

lemma scan_thermostats_run:
  assumes "match_locations s = (Inr (locations, home_location), s1)"
    and "get_all_appliances s1 = (Inr appliances, s2)"
  shows "\<exists>s3. scan_thermostats s =
      (Inr (map (\<lambda>e. if (''thermostat'' \<in> l_types (snd e) \<and> fst e \<noteq> home_location)
                    \<or> (fst e = home_location \<and> self_smile_legacy s)
                 then (fst e, (snd e)\<lparr>l_thermo :=
                        Some (fold (\<lambda>c. elect (fst c) (snd c))
                                (zone_candidates (self_smile_legacy s) (fst e) appliances)
                                no_thermo)\<rparr>)
                 else e) locations, home_location), s3)"
proof -
  have "self_smile_legacy s1 = self_smile_legacy s"
    using match_locations_documents [of s] assms(1) by (simp add: documents_def)
  moreover have "self_smile_legacy s2 = self_smile_legacy s1"
    using get_all_appliances_documents [of s1] assms(2) by (simp add: documents_def)
  ultimately have legacy: "self_smile_legacy s2 = self_smile_legacy s" by simp
  have first: "pbind match_locations f s = f (locations, home_location) s1" for f
    using assms(1) by (simp add: pbind_def)
  have second: "pbind get_all_appliances g s1 = g appliances s2" for g
    using assms(2) by (simp add: pbind_def)
  show ?thesis
    unfolding scan_thermostats_def
    by (simp add: first second Let_def legacy scan_locations_map)
qed

lemma scan_thermostats_parts:
  assumes "scan_thermostats s = (Inr (result, home_location), s')"
  obtains locations s1 appliances s2 where
    "match_locations s = (Inr (locations, home_location), s1)"
    "get_all_appliances s1 = (Inr appliances, s2)"
  using assms unfolding scan_thermostats_def
  by (auto simp: pbind_Inr_iff Let_def)

lemma scan_thermostats_keys:
  assumes "scan_thermostats s = (Inr (result, home_location), s')"
  shows "IdNone \<notin> fst ` set result"
proof -
  from assms obtain mlocs s1 apps s2 where
    ml: "match_locations s = (Inr (mlocs, home_location), s1)"
    and ap: "get_all_appliances s1 = (Inr apps, s2)"
    by (rule scan_thermostats_parts)
  let ?zone = "\<lambda>e. if (''thermostat'' \<in> l_types (snd e) \<and> fst e \<noteq> home_location)
                    \<or> (fst e = home_location \<and> self_smile_legacy s)
                 then (fst e, (snd e)\<lparr>l_thermo :=
                        Some (fold (\<lambda>c. elect (fst c) (snd c))
                                (zone_candidates (self_smile_legacy s) (fst e) apps)
                                no_thermo)\<rparr>)
                 else e"
  from scan_thermostats_run [OF ml ap] assms have "result = map ?zone mlocs" by auto
  moreover have "map fst (map ?zone mlocs) = map fst mlocs"
    by (induction mlocs) auto
  ultimately have "fst ` set result = fst ` set mlocs"
    by (metis set_map)
  then show ?thesis using match_locations_ok [OF ml] by (auto simp: locations_ok_def)
qed


text \<open>The example installation, evaluated.\<close>

lemma adam_match_locations:
  "match_locations adam = (Inr (adam_topology, IdStr ''home''), adam_polled)"
  by code_simp

lemma adam_get_all_appliances:
  "get_all_appliances adam_polled = (Inr adam_inventory, adam_polled)"
  by code_simp

lemma adam_get_all_appliances_first:
  "get_all_appliances adam = (Inr adam_inventory, adam_polled)"
  by code_simp

lemma adam_candidates:
  "zone_candidates (self_smile_legacy adam) (IdStr ''living'') adam_inventory
     = [(IdStr ''trv'', 1), (IdStr ''zt'', 2), (IdStr ''zt2'', 2)]"
  by code_simp

lemma adam_scan_thermostats:
  "scan_thermostats adam = (Inr (adam_zones, IdStr ''home''), adam_scanned)"
  by code_simp

lemma adam_scan_thermostats_polled:
  "scan_thermostats adam_polled = (Inr (adam_zones, IdStr ''home''), adam_scanned)"
  by code_simp

lemma adam_get_all_devices: "get_all_devices adam = (Inr adam_devices, adam_scanned)"
  by code_simp


text \<open>C8.  In the result of \<^verbatim>\<open>scan_thermostats\<close>, a location that carries a
  master which is not \<^verbatim>\<open>None\<close> does not have that master among its slaves.\<close>

theorem scan_thermostats_master_not_slave:
  assumes "scan_thermostats s = (Inr (locations, home_location), s')"
  shows "\<forall>e \<in> set locations. \<forall>th. l_thermo (snd e) = Some th \<longrightarrow> master th \<noteq> IdNone
           \<longrightarrow> master th \<notin> slaves th"
proof (intro ballI allI impI)
  fix e th
  assume e: "e \<in> set locations" and th: "l_thermo (snd e) = Some th"
    and m: "master th \<noteq> IdNone"
  from assms obtain mlocs s1 apps s2 where
    ml: "match_locations s = (Inr (mlocs, home_location), s1)"
    and ap: "get_all_appliances s1 = (Inr apps, s2)"
    by (rule scan_thermostats_parts)
  from scan_thermostats_run [OF ml ap] assms
  have locations: "locations = map (\<lambda>e. if (''thermostat'' \<in> l_types (snd e) \<and> fst e \<noteq> home_location)
                    \<or> (fst e = home_location \<and> self_smile_legacy s)
                 then (fst e, (snd e)\<lparr>l_thermo :=
                        Some (fold (\<lambda>c. elect (fst c) (snd c))
                                (zone_candidates (self_smile_legacy s) (fst e) apps)
                                no_thermo)\<rparr>)
                 else e) mlocs"
    by auto
  have none: "\<forall>x \<in> set mlocs. l_thermo (snd x) = None"
    using match_locations_ok [OF ml] by (simp add: locations_ok_def)
  from e locations th none obtain k where
    "th = fold (\<lambda>c. elect (fst c) (snd c)) (zone_candidates (self_smile_legacy s) k apps) no_thermo"
    by (auto split: if_splits)
  moreover have "distinct (map fst (zone_candidates (self_smile_legacy s) k apps))"
    using get_all_appliances_ok [OF ap] by (simp add: appliances_ok_def zone_candidates_distinct)
  ultimately show "master th \<notin> slaves th"
    using m elect_fold_disjoint [of "zone_candidates (self_smile_legacy s) k apps" no_thermo]
    by (simp add: no_thermo_def)
qed

theorem scan_thermostats_master_not_slave_witness:
  "\<exists>e th. scan_thermostats adam = (Inr (adam_zones, IdStr ''home''), adam_scanned)
      \<and> e \<in> set adam_zones \<and> l_thermo (snd e) = Some th
      \<and> master th = IdStr ''zt'' \<and> master th \<notin> slaves th"
proof -
  let ?th = "\<lparr>master = IdStr ''zt'', master_prio = 2, slaves = {IdStr ''trv'', IdStr ''zt2''}\<rparr>"
  let ?e = "(IdStr ''living'', living\<lparr>l_thermo := Some ?th\<rparr>)"
  have e: "?e \<in> set adam_zones" by (simp add: adam_zones_def)
  have th: "l_thermo (snd ?e) = Some ?th" by simp
  have m: "master ?th \<noteq> IdNone" by simp
  from scan_thermostats_master_not_slave [OF adam_scan_thermostats, rule_format, OF e th m]
  have "master ?th \<notin> slaves ?th" .
  with e th adam_scan_thermostats show ?thesis by (intro exI [of _ ?e] exI [of _ ?th]) simp
qed

text \<open>C1.  Let a location of the matched topology be tagged \<^verbatim>\<open>thermostat\<close> and
  not be the home location, or be the home location on a legacy dialect.  Then
  \<^verbatim>\<open>scan_thermostats\<close> returns, and gives that location the master and slaves
  reached by running the election step over the zone's candidates in scan
  order: a candidate whose priority exceeds the current one becomes master and
  the former master, if any, a slave; any other candidate becomes a slave.
  Hence the master's priority is the highest priority among the candidates (0
  without candidates), the master is the first candidate in scan order that
  has this priority, and the slaves are all other candidates.\<close>

theorem scan_thermostats_elects_highest_priority:
  assumes "match_locations s = (Inr (locations, home_location), s1)"
    and "get_all_appliances s1 = (Inr appliances, s2)"
    and "(loc_id, details) \<in> set locations"
    and "(''thermostat'' \<in> l_types details \<and> loc_id \<noteq> home_location)
         \<or> (loc_id = home_location \<and> self_smile_legacy s)"
  shows "\<exists>result s3 th.
      scan_thermostats s = (Inr (result, home_location), s3)
      \<and> map_of result loc_id = Some (details\<lparr>l_thermo := Some th\<rparr>)
      \<and> th = fold (\<lambda>c. elect (fst c) (snd c))
                (zone_candidates (self_smile_legacy s) loc_id appliances)
                \<lparr>master = IdNone, master_prio = 0, slaves = {}\<rparr>
      \<and> master_prio th
          = Max (insert 0 (snd ` set (zone_candidates (self_smile_legacy s) loc_id appliances)))
      \<and> (zone_candidates (self_smile_legacy s) loc_id appliances = [] \<longrightarrow> master th = IdNone)
      \<and> (zone_candidates (self_smile_legacy s) loc_id appliances \<noteq> [] \<longrightarrow>
           List.find (\<lambda>c. snd c = master_prio th)
             (zone_candidates (self_smile_legacy s) loc_id appliances)
           = Some (master th, master_prio th))
      \<and> slaves th
          = fst ` set (zone_candidates (self_smile_legacy s) loc_id appliances) - {master th}"
proof -
  define cands where "cands = zone_candidates (self_smile_legacy s) loc_id appliances"
  define th where "th = fold (\<lambda>c. elect (fst c) (snd c)) cands no_thermo"
  define M where "M = Max (insert 0 (snd ` set cands))"
  let ?zone = "\<lambda>e. if (''thermostat'' \<in> l_types (snd e) \<and> fst e \<noteq> home_location)
                    \<or> (fst e = home_location \<and> self_smile_legacy s)
                 then (fst e, (snd e)\<lparr>l_thermo :=
                        Some (fold (\<lambda>c. elect (fst c) (snd c))
                                (zone_candidates (self_smile_legacy s) (fst e) appliances)
                                no_thermo)\<rparr>)
                 else e"
  from scan_thermostats_run [OF assms(1,2)] obtain s3 where
    run: "scan_thermostats s = (Inr (map ?zone locations, home_location), s3)" by blast
  have keys: "map fst (map ?zone locations) = map fst locations"
    by (induction locations) auto
  have "distinct (map fst locations)"
    using match_locations_ok [OF assms(1)] by (simp add: locations_ok_def)
  then have "distinct (map fst (map ?zone locations))" by (simp only: keys)
  moreover have "(loc_id, details\<lparr>l_thermo := Some th\<rparr>) \<in> set (map ?zone locations)"
  proof -
    have "?zone (loc_id, details) = (loc_id, details\<lparr>l_thermo := Some th\<rparr>)"
      using assms(4) by (simp add: th_def cands_def)
    moreover have "?zone (loc_id, details) \<in> set (map ?zone locations)"
      unfolding set_map using assms(3) by (rule imageI)
    ultimately show ?thesis by simp
  qed
  ultimately have lookup: "map_of (map ?zone locations) loc_id
      = Some (details\<lparr>l_thermo := Some th\<rparr>)"
    by (simp only: map_of_eq_Some_iff)
  have ok: "appliances_ok appliances" using assms(2) by (rule get_all_appliances_ok)
  have cand_keys: "\<forall>c \<in> set cands. fst c \<noteq> IdNone"
  proof
    fix c assume "c \<in> set cands"
    then have "c \<in> set (zone_candidates (self_smile_legacy s) loc_id appliances)"
      by (simp add: cands_def)
    from zone_candidates_set [OF this]
    obtain e where "e \<in> set appliances" "fst c = fst e"
      "class_prio (a_class (snd e)) = Some (snd c)" by auto
    then show "fst c \<noteq> IdNone" using ok unfolding appliances_ok_def by fastforce
  qed
  have cand_prio: "\<forall>c \<in> set cands. 0 < snd c"
  proof
    fix c assume "c \<in> set cands"
    then have "c \<in> set (zone_candidates (self_smile_legacy s) loc_id appliances)"
      by (simp add: cands_def)
    from zone_candidates_set [OF this]
    obtain e :: "pyid \<times> appliance" where "class_prio (a_class (snd e)) = Some (snd c)"
      by auto
    then show "0 < snd c" using class_prio_range by fastforce
  qed
  have dist: "distinct (map fst cands)"
    unfolding cands_def using ok by (simp add: appliances_ok_def zone_candidates_distinct)
  have prio: "master_prio th = M"
    unfolding th_def M_def by (simp add: elect_fold_prio no_thermo_def)
  have M_eq: "M = Max (insert (master_prio no_thermo) (snd ` set cands))"
    by (simp add: M_def no_thermo_def)
  have master: "master th = (if M = 0 then IdNone
        else (case List.find (\<lambda>c. snd c = M) cands of None \<Rightarrow> IdNone | Some c \<Rightarrow> fst c))"
    unfolding th_def elect_fold_master_aux [OF M_eq]
    by (simp add: no_thermo_def split: option.splits)
  have empty: "cands = [] \<longrightarrow> master th = IdNone"
    using master by (auto simp: M_def)
  have nonempty: "cands \<noteq> [] \<longrightarrow> List.find (\<lambda>c. snd c = M) cands = Some (master th, M)"
  proof
    assume ne: "cands \<noteq> []"
    have "M \<in> insert 0 (snd ` set cands)" unfolding M_def by (rule Max_in) simp_all
    moreover have "M \<noteq> 0"
    proof -
      from ne obtain c where c: "c \<in> set cands" by (cases cands) auto
      then have "snd c \<le> M" unfolding M_def by (intro Max_ge) simp_all
      then show ?thesis using cand_prio c by fastforce
    qed
    ultimately obtain c where c: "List.find (\<lambda>c. snd c = M) cands = Some c"
      by (cases "List.find (\<lambda>c. snd c = M) cands") (auto simp: find_None_iff)
    then have "snd c = M" by (auto simp: find_Some_iff)
    moreover have "master th = fst c" using master c \<open>M \<noteq> 0\<close> by simp
    ultimately show "List.find (\<lambda>c. snd c = M) cands = Some (master th, M)"
      using c by (cases c) simp
  qed
  have members: "slaves th \<union> (if master th = IdNone then {} else {master th}) = fst ` set cands"
    unfolding th_def using elect_fold_members [OF cand_keys, of no_thermo]
    by (simp add: no_thermo_def)
  have disjoint: "master th \<noteq> IdNone \<longrightarrow> master th \<notin> slaves th"
    unfolding th_def using elect_fold_disjoint [OF dist, of no_thermo]
    by (simp add: no_thermo_def)
  have slaves: "slaves th = fst ` set cands - {master th}"
  proof (cases "master th = IdNone")
    case True
    then show ?thesis using members cand_keys by auto
  next
    case False
    then show ?thesis using members disjoint by auto
  qed
  show ?thesis
  proof (intro exI conjI)
    show "scan_thermostats s = (Inr (map ?zone locations, home_location), s3)"
      by (rule run)
    show "map_of (map ?zone locations) loc_id = Some (details\<lparr>l_thermo := Some th\<rparr>)"
      by (rule lookup)
    show "th = fold (\<lambda>c. elect (fst c) (snd c))
                (zone_candidates (self_smile_legacy s) loc_id appliances)
                \<lparr>master = IdNone, master_prio = 0, slaves = {}\<rparr>"
      by (simp add: th_def cands_def no_thermo_def)
    show "master_prio th
          = Max (insert 0 (snd ` set (zone_candidates (self_smile_legacy s) loc_id appliances)))"
      using prio by (simp add: M_def cands_def)
    show "zone_candidates (self_smile_legacy s) loc_id appliances = [] \<longrightarrow> master th = IdNone"
      using empty by (simp add: cands_def)
    show "zone_candidates (self_smile_legacy s) loc_id appliances \<noteq> [] \<longrightarrow>
           List.find (\<lambda>c. snd c = master_prio th)
             (zone_candidates (self_smile_legacy s) loc_id appliances)
           = Some (master th, master_prio th)"
      using nonempty prio by (simp add: cands_def)
    show "slaves th
          = fst ` set (zone_candidates (self_smile_legacy s) loc_id appliances) - {master th}"
      using slaves by (simp add: cands_def)
  qed
qed

theorem scan_thermostats_elects_highest_priority_witness:
  "\<exists>result s3 th. scan_thermostats adam = (Inr (result, IdStr ''home''), s3)
      \<and> map_of result (IdStr ''living'') = Some (living\<lparr>l_thermo := Some th\<rparr>)
      \<and> master th = IdStr ''zt'' \<and> master_prio th = 2
      \<and> slaves th = {IdStr ''trv'', IdStr ''zt2''}"
proof -
  have zone: "(IdStr ''living'', living) \<in> set adam_topology"
    by (simp add: adam_topology_def)
  have tagged: "(''thermostat'' \<in> l_types living \<and> IdStr ''living'' \<noteq> IdStr ''home'')
         \<or> (IdStr ''living'' = IdStr ''home'' \<and> self_smile_legacy adam)"
    by (simp add: living_def)
  from scan_thermostats_elects_highest_priority
         [OF adam_match_locations adam_get_all_appliances zone tagged]
  obtain result s3 th where
    run: "scan_thermostats adam = (Inr (result, IdStr ''home''), s3)"
    and lookup: "map_of result (IdStr ''living'') = Some (living\<lparr>l_thermo := Some th\<rparr>)"
    and prio: "master_prio th = Max (insert 0 (snd ` set
        (zone_candidates (self_smile_legacy adam) (IdStr ''living'') adam_inventory)))"
    and first: "zone_candidates (self_smile_legacy adam) (IdStr ''living'') adam_inventory \<noteq> []
        \<longrightarrow> List.find (\<lambda>c. snd c = master_prio th)
             (zone_candidates (self_smile_legacy adam) (IdStr ''living'') adam_inventory)
           = Some (master th, master_prio th)"
    and rest: "slaves th = fst ` set
        (zone_candidates (self_smile_legacy adam) (IdStr ''living'') adam_inventory)
          - {master th}"
    by blast
  have two: "master_prio th = 2" using prio by (simp add: adam_candidates)
  have zt: "master th = IdStr ''zt''" using first by (simp add: adam_candidates two)
  have "slaves th = {IdStr ''trv'', IdStr ''zt2''}"
    using rest by (auto simp: adam_candidates zt)
  with run lookup two zt show ?thesis by blast
qed
subsection \<open>Devices\<close>

lemma device_details_class:
  "a_class (device_details tlocs home e)
     = (if \<exists>loc th. map_of tlocs (a_location (snd e)) = Some loc \<and> l_thermo loc = Some th
              \<and> fst e \<in> slaves th
        then Some ''thermo_sensor'' else a_class (snd e))"
  by (auto simp: device_details_def Let_def split: option.splits)

lemma get_all_devices_run:
  assumes "get_all_appliances s = (Inr appliances, s1)"
    and "scan_thermostats s1 = (Inr (thermo_locations, home_location), s2)"
  shows "get_all_devices s
     = (Inr (map (\<lambda>e. (fst e, device_details thermo_locations home_location e)) appliances), s2)"
proof -
  have first: "pbind get_all_appliances f s = f appliances s1" for f
    using assms(1) by (simp add: pbind_def)
  have second: "pbind scan_thermostats g s1 = g (thermo_locations, home_location) s2" for g
    using assms(2) by (simp add: pbind_def)
  have "distinct (map fst appliances)"
    using get_all_appliances_ok [OF assms(1)] by (simp add: appliances_ok_def)
  moreover have "get_all_devices_round thermo_locations home_location
      = (\<lambda>e. AList.update (fst e) (device_details thermo_locations home_location e))"
    by (intro ext) (simp add: get_all_devices_round_def)
  ultimately have "fold (get_all_devices_round thermo_locations home_location) appliances []
      = map (\<lambda>e. (fst e, device_details thermo_locations home_location e)) appliances"
    by (simp add: fold_update_dict)
  then show ?thesis
    unfolding get_all_devices_def by (simp add: first second)
qed

lemma get_all_devices_parts:
  assumes "get_all_devices s = (Inr devices, s')"
  obtains appliances s1 thermo_locations home_location where
    "get_all_appliances s = (Inr appliances, s1)"
    "scan_thermostats s1 = (Inr (thermo_locations, home_location), s')"
  using assms unfolding get_all_devices_def
  by (auto simp: pbind_Inr_iff)


text \<open>C10.  \<^verbatim>\<open>get_all_devices\<close> returns the appliances of
  \<^verbatim>\<open>get_all_appliances\<close> under the same identifiers in the same order; an
  appliance with a location of its own that the thermostat scan lists, and
  that is among the slaves of that location, gets the class
  \<^verbatim>\<open>thermo_sensor\<close>, and every other appliance keeps its class.\<close>

theorem get_all_devices_slave_class:
  assumes "get_all_appliances s = (Inr appliances, s1)"
    and "scan_thermostats s1 = (Inr (thermo_locations, home_location), s2)"
  shows "\<exists>devices. get_all_devices s = (Inr devices, s2)
      \<and> map fst devices = map fst appliances
      \<and> (\<forall>e \<in> set appliances. \<exists>details. map_of devices (fst e) = Some details
            \<and> a_class details
                = (if a_location (snd e) \<noteq> IdNone
                      \<and> (\<exists>loc th. map_of thermo_locations (a_location (snd e)) = Some loc
                             \<and> l_thermo loc = Some th \<and> fst e \<in> slaves th)
                   then Some ''thermo_sensor'' else a_class (snd e)))"
proof -
  let ?devices = "map (\<lambda>e. (fst e, device_details thermo_locations home_location e)) appliances"
  have run: "get_all_devices s = (Inr ?devices, s2)"
    using assms by (rule get_all_devices_run)
  have keys: "map fst ?devices = map fst appliances" by (simp add: comp_def)
  have dist: "distinct (map fst ?devices)"
    using get_all_appliances_ok [OF assms(1)] by (simp add: appliances_ok_def comp_def)
  have none: "map_of thermo_locations IdNone = None"
    using scan_thermostats_keys [OF assms(2)] by (simp add: map_of_eq_None_iff)
  have each: "\<forall>e \<in> set appliances. \<exists>details. map_of ?devices (fst e) = Some details
            \<and> a_class details
                = (if a_location (snd e) \<noteq> IdNone
                      \<and> (\<exists>loc th. map_of thermo_locations (a_location (snd e)) = Some loc
                             \<and> l_thermo loc = Some th \<and> fst e \<in> slaves th)
                   then Some ''thermo_sensor'' else a_class (snd e))"
  proof
    fix e assume "e \<in> set appliances"
    then have "(fst e, device_details thermo_locations home_location e) \<in> set ?devices"
      by (simp add: image_iff) blast
    then have "map_of ?devices (fst e) = Some (device_details thermo_locations home_location e)"
      using dist by (simp only: map_of_eq_Some_iff)
    moreover have "a_class (device_details thermo_locations home_location e)
        = (if a_location (snd e) \<noteq> IdNone
              \<and> (\<exists>loc th. map_of thermo_locations (a_location (snd e)) = Some loc
                     \<and> l_thermo loc = Some th \<and> fst e \<in> slaves th)
           then Some ''thermo_sensor'' else a_class (snd e))"
      using none by (auto simp: device_details_class)
    ultimately show "\<exists>details. map_of ?devices (fst e) = Some details
            \<and> a_class details
                = (if a_location (snd e) \<noteq> IdNone
                      \<and> (\<exists>loc th. map_of thermo_locations (a_location (snd e)) = Some loc
                             \<and> l_thermo loc = Some th \<and> fst e \<in> slaves th)
                   then Some ''thermo_sensor'' else a_class (snd e))"
      by blast
  qed
  from run keys each show ?thesis by blast
qed

theorem get_all_devices_slave_class_witness:
  "\<exists>devices. get_all_devices adam = (Inr devices, adam_scanned)
      \<and> map fst devices = [IdStr ''gw'', IdStr ''trv'', IdStr ''zt'', IdStr ''zt2'']
      \<and> map_option a_class (map_of devices (IdStr ''gw'')) = Some (Some ''gateway'')
      \<and> map_option a_class (map_of devices (IdStr ''trv'')) = Some (Some ''thermo_sensor'')
      \<and> map_option a_class (map_of devices (IdStr ''zt'')) = Some (Some ''zone_thermostat'')
      \<and> map_option a_class (map_of devices (IdStr ''zt2'')) = Some (Some ''thermo_sensor'')"
proof -
  from get_all_devices_slave_class [OF adam_get_all_appliances_first adam_scan_thermostats_polled]
  obtain devices where run: "get_all_devices adam = (Inr devices, adam_scanned)"
    and keys: "map fst devices = map fst adam_inventory"
    and each: "\<forall>e \<in> set adam_inventory. \<exists>details. map_of devices (fst e) = Some details
            \<and> a_class details
                = (if a_location (snd e) \<noteq> IdNone
                      \<and> (\<exists>loc th. map_of adam_zones (a_location (snd e)) = Some loc
                             \<and> l_thermo loc = Some th \<and> fst e \<in> slaves th)
                   then Some ''thermo_sensor'' else a_class (snd e))"
    by blast
  have "map_option a_class (map_of devices (IdStr ''gw'')) = Some (Some ''gateway'')"
    and "map_option a_class (map_of devices (IdStr ''trv'')) = Some (Some ''thermo_sensor'')"
    and "map_option a_class (map_of devices (IdStr ''zt'')) = Some (Some ''zone_thermostat'')"
    and "map_option a_class (map_of devices (IdStr ''zt2'')) = Some (Some ''thermo_sensor'')"
    using each by (auto simp: adam_inventory_def adam_zones_def living_def)
  with run keys show ?thesis by (auto simp: adam_inventory_def)
qed

text \<open>C7.  No appliance in the result of \<^verbatim>\<open>get_all_appliances\<close> and no device
  in the result of \<^verbatim>\<open>get_all_devices\<close> has the class
  \<^verbatim>\<open>open_therm_gateway\<close>.\<close>

theorem open_therm_gateway_discarded:
  "(get_all_appliances s = (Inr appliances, s1) \<longrightarrow>
      (\<forall>e \<in> set appliances. a_class (snd e) \<noteq> Some ''open_therm_gateway''))
   \<and> (get_all_devices s = (Inr devices, s2) \<longrightarrow>
      (\<forall>e \<in> set devices. a_class (snd e) \<noteq> Some ''open_therm_gateway''))"
proof (intro conjI impI)
  assume "get_all_appliances s = (Inr appliances, s1)"
  then show "\<forall>e \<in> set appliances. a_class (snd e) \<noteq> Some ''open_therm_gateway''"
    using get_all_appliances_ok by (auto simp: appliances_ok_def)
next
  assume run: "get_all_devices s = (Inr devices, s2)"
  then obtain apps s' tlocs home where
    ap: "get_all_appliances s = (Inr apps, s')"
    and sc: "scan_thermostats s' = (Inr (tlocs, home), s2)"
    by (rule get_all_devices_parts)
  from get_all_devices_run [OF ap sc] run
  have devices: "devices = map (\<lambda>e. (fst e, device_details tlocs home e)) apps" by simp
  have "\<forall>e \<in> set apps. a_class (snd e) \<noteq> Some ''open_therm_gateway''"
    using get_all_appliances_ok [OF ap] by (auto simp: appliances_ok_def)
  then show "\<forall>e \<in> set devices. a_class (snd e) \<noteq> Some ''open_therm_gateway''"
    unfolding devices by (auto simp: device_details_class)
qed

theorem open_therm_gateway_discarded_witness:
  "get_all_appliances adam = (Inr adam_inventory, adam_polled)
   \<and> list_all (\<lambda>e. a_class (snd e) \<noteq> Some ''open_therm_gateway'') adam_inventory
   \<and> get_all_devices adam = (Inr adam_devices, adam_scanned)
   \<and> list_all (\<lambda>e. a_class (snd e) \<noteq> Some ''open_therm_gateway'') adam_devices
   \<and> list_ex (\<lambda>a. map_option xml_text (find_xml [Child ''type'' []] a)
                      = Some (Some ''open_therm_gateway'')) (xml_children adam_appliances)"
proof -
  note discarded = open_therm_gateway_discarded
         [of adam adam_inventory adam_polled adam_devices adam_scanned]
  have "list_all (\<lambda>e. a_class (snd e) \<noteq> Some ''open_therm_gateway'') adam_inventory"
    using discarded [THEN conjunct1] adam_get_all_appliances_first
    by (simp only: list_all_iff) simp
  moreover have "list_all (\<lambda>e. a_class (snd e) \<noteq> Some ''open_therm_gateway'') adam_devices"
    using discarded [THEN conjunct2] adam_get_all_devices
    by (simp only: list_all_iff) simp
  moreover have "list_ex (\<lambda>a. map_option xml_text (find_xml [Child ''type'' []] a)
                      = Some (Some ''open_therm_gateway'')) (xml_children adam_appliances)"
    by code_simp
  ultimately show ?thesis
    using adam_get_all_appliances_first adam_get_all_devices by simp
qed

subsection \<open>Numbers as text\<close>

lemma digit_cases:
  "0 \<le> d \<Longrightarrow> d < 10 \<Longrightarrow>
   (d::int) = 0 \<or> d = 1 \<or> d = 2 \<or> d = 3 \<or> d = 4 \<or> d = 5 \<or> d = 6 \<or> d = 7 \<or> d = 8 \<or> d = 9"
  by arith

lemma digit_char_props:
  assumes "0 \<le> d" "d < (10::int)"
  shows "is_digit (digit_char d) \<and> int (digit_val (digit_char d)) = d
         \<and> \<not> is_space (digit_char d) \<and> digit_char d \<noteq> CHR ''_''"
  using digit_cases [OF assms]
  by (auto simp: is_digit_def digit_val_def is_space_def digit_char_def)

lemma digits10_digits: "0 \<le> n \<Longrightarrow> digits10 n \<noteq> [] \<and> list_all is_digit (digits10 n)"
proof (induction n rule: digits10.induct)
  case (1 n)
  show ?case
  proof (cases "n < 10")
    case True
    with "1.prems" show ?thesis
      by (subst (1 2) digits10.simps) (simp add: digit_char_props)
  next
    case False
    then have "0 \<le> n div 10" by simp
    with "1.IH" False have "list_all is_digit (digits10 (n div 10))" by simp
    moreover have "is_digit (digit_char (n mod 10))"
      by (rule digit_char_props [THEN conjunct1]) simp_all
    ultimately show ?thesis using False
      by (subst (1 2) digits10.simps) simp
  qed
qed

lemma decimal_value_snoc:
  "decimal_value (ds @ [c]) = 10 * decimal_value ds + int (digit_val c)"
  by (simp add: decimal_value_def)

lemma decimal_value_digits10: "0 \<le> n \<Longrightarrow> decimal_value (digits10 n) = n"
proof (induction n rule: digits10.induct)
  case (1 n)
  show ?case
  proof (cases "n < 10")
    case True
    with "1.prems" show ?thesis
      by (subst digits10.simps) (simp add: decimal_value_def digit_char_props)
  next
    case False
    then have "0 \<le> n div 10" by simp
    with "1.IH" False have "decimal_value (digits10 (n div 10)) = n div 10" by simp
    moreover have "int (digit_val (digit_char (n mod 10))) = n mod 10"
      by (rule digit_char_props [THEN conjunct2, THEN conjunct1]) simp_all
    ultimately show ?thesis using False
      by (subst digits10.simps) (simp add: decimal_value_snoc)
  qed
qed

lemma decimal_value_zeros: "decimal_value (replicate j CHR ''0'' @ ds) = decimal_value ds"
proof (induction j)
  case 0
  show ?case by simp
next
  case (Suc j)
  have "foldl (\<lambda>n c. 10 * n + int (digit_val c)) 0 (CHR ''0'' # replicate j CHR ''0'' @ ds)
      = foldl (\<lambda>n c. 10 * n + int (digit_val c)) 0 (replicate j CHR ''0'' @ ds)"
    by (simp add: digit_val_def)
  then show ?case using Suc by (simp add: decimal_value_def)
qed



lemma two_up_pos: "0 < two_up k"
  by (simp add: two_up_def)

lemma ten_up_pos: "0 < ten_up k"
  by (simp add: ten_up_def)

lemma round_half_even_nonneg: "0 \<le> a \<Longrightarrow> 0 < b \<Longrightarrow> 0 \<le> round_half_even a b"
  by (simp add: round_half_even_def Let_def pos_imp_zdiv_nonneg_iff)

lemma nearest_double_ok:
  assumes "0 \<le> a" and "0 < b"
  shows "finite_ok (nearest_double negative a b)"
proof -
  have "0 \<le> round_half_even (a * two_up j) (b * two_up k)" for j k
    using assms two_up_pos [of j] two_up_pos [of k]
    by (intro round_half_even_nonneg) simp_all
  then show ?thesis
    by (simp add: nearest_double_def finite_ok_def Let_def)
qed

lemma decimal_value_nonneg: "0 \<le> decimal_value ds"
proof -
  have "0 \<le> n \<Longrightarrow> 0 \<le> foldl (\<lambda>n c. 10 * n + int (digit_val c)) n ds" for n
    by (induction ds arbitrary: n) simp_all
  then show ?thesis by (simp add: decimal_value_def)
qed

lemma decimals_nonneg: "0 \<le> m \<Longrightarrow> 0 \<le> decimals k m e"
  unfolding decimals_def numerator_def denominator_def
  using two_up_pos [of e] two_up_pos [of "- e"]
  by (intro round_half_even_nonneg) simp_all

lemma py_round_ok: "finite_ok x \<Longrightarrow> finite_ok (py_round x k)"
proof (cases x)
  case (Double negative m e)
  assume "finite_ok x"
  with Double have "0 \<le> decimals k m e" by (simp add: finite_ok_def decimals_nonneg)
  with Double show ?thesis by (simp add: nearest_double_ok)
qed simp_all

lemma parse_decimal_ok:
  assumes "parse_decimal negative s = Some x"
  shows "finite_ok x"
proof -
  from assms obtain ds j k where "x = nearest_double negative (decimal_value ds * ten_up j) (ten_up k)"
    by (auto simp: parse_decimal_def Let_def split: if_splits option.splits)
  moreover have "0 \<le> decimal_value ds * ten_up j"
    using decimal_value_nonneg [of ds] ten_up_pos [of j] by simp
  ultimately show ?thesis using ten_up_pos [of k] by (simp add: nearest_double_ok)
qed

lemma py_float_ok: "py_float s = Some x \<Longrightarrow> finite_ok x"
  by (auto simp: py_float_def Let_def finite_ok_def [of "Infinite _"] finite_ok_def [of NaN]
      parse_decimal_ok split: option.splits if_splits)


lemma is_digit_plain:
  "is_digit c \<Longrightarrow> \<not> is_space c \<and> c \<noteq> CHR ''_'' \<and> c \<noteq> CHR ''-'' \<and> c \<noteq> CHR ''+''
     \<and> c \<noteq> CHR ''.'' \<and> lower [c] = [c]"
  by (auto simp: is_digit_def is_space_def lower_def)

lemma fixed_parts:
  assumes "0 \<le> n"
  obtains ip fp where "fixed k n = ip @ (if k = 0 then [] else CHR ''.'' # fp)"
    and "ip \<noteq> []" and "list_all is_digit ip" and "list_all is_digit fp"
    and "length fp = k" and "decimal_value (ip @ fp) = n"
proof -
  define padded where "padded = replicate (Suc k - length (digits10 n)) CHR ''0'' @ digits10 n"
  define ip where "ip = take (length padded - k) padded"
  define fp where "fp = drop (length padded - k) padded"
  have len: "k < length padded" by (auto simp: padded_def)
  have "is_digit CHR ''0''" by (simp add: is_digit_def)
  then have digits: "list_all is_digit padded"
    using digits10_digits [OF assms] by (auto simp: padded_def list_all_iff)
  have "fixed k n = ip @ (if k = 0 then [] else CHR ''.'' # fp)"
    by (simp add: fixed_def Let_def padded_def ip_def fp_def)
  moreover have "ip \<noteq> []" using len by (auto simp: ip_def)
  moreover have "list_all is_digit ip" "list_all is_digit fp"
    using digits by (auto simp: ip_def fp_def list_all_iff dest: in_set_takeD in_set_dropD)
  moreover have "length fp = k" using len by (simp add: fp_def)
  moreover have "decimal_value (ip @ fp) = n"
  proof -
    have "ip @ fp = padded" by (simp add: ip_def fp_def)
    then show ?thesis
      using decimal_value_digits10 [OF assms] by (simp add: padded_def decimal_value_zeros)
  qed
  ultimately show ?thesis by (rule that)
qed

lemma remove_underscores_plain:
  "CHR ''_'' \<notin> set s \<Longrightarrow> prev \<noteq> CHR ''_'' \<Longrightarrow> remove_underscores prev s = Some s"
  by (induction s arbitrary: prev) auto

lemma strip_plain:
  assumes "s \<noteq> []" and "\<not> is_space (hd s)" and "\<not> is_space (last s)"
  shows "strip s = s"
proof -
  have "dropWhile is_space s = s" using assms(1,2) by (cases s) simp_all
  moreover have "dropWhile is_space (rev s) = rev s"
    using assms(1,3) by (cases "rev s") (simp_all add: last_rev [symmetric] hd_rev)
  ultimately show ?thesis by (simp add: strip_def)
qed

lemma digits_then:
  assumes "list_all is_digit ip" and "rest = [] \<or> \<not> is_digit (hd rest)"
  shows "takeWhile is_digit (ip @ rest) = ip" and "dropWhile is_digit (ip @ rest) = rest"
proof -
  have all: "\<And>x. x \<in> set ip \<Longrightarrow> is_digit x" using assms(1) by (simp add: list_all_iff)
  have "takeWhile is_digit rest = []" "dropWhile is_digit rest = rest"
    using assms(2) by (cases rest; simp)+
  then show "takeWhile is_digit (ip @ rest) = ip" "dropWhile is_digit (ip @ rest) = rest"
    using all by (simp_all add: takeWhile_append2 dropWhile_append2)
qed

lemma parse_decimal_fixed:
  assumes "ip \<noteq> []" and "list_all is_digit ip" and "list_all is_digit fp"
  shows "parse_decimal negative (ip @ (if length fp = 0 then [] else CHR ''.'' # fp))
     = Some (nearest_double negative (decimal_value (ip @ fp)) (10 ^ length fp))"
proof (cases "fp = []")
  case True
  have tw: "takeWhile is_digit ip = ip" "dropWhile is_digit ip = []"
    using digits_then [OF assms(2), of "[]"] by simp_all
  show ?thesis using True assms(1)
    by (simp add: parse_decimal_def exponent_def ten_up_def Let_def tw)
next
  case False
  have "\<not> is_digit CHR ''.''" by (simp add: is_digit_def)
  then have tw: "takeWhile is_digit (ip @ CHR ''.'' # fp) = ip"
    "dropWhile is_digit (ip @ CHR ''.'' # fp) = CHR ''.'' # fp"
    using digits_then [OF assms(2), of "CHR ''.'' # fp"] by simp_all
  have tf: "takeWhile is_digit fp = fp" "dropWhile is_digit fp = []"
    using digits_then [OF assms(3), of "[]"] by simp_all
  show ?thesis using False assms(1)
    by (simp add: parse_decimal_def exponent_def ten_up_def Let_def tw tf)
qed

lemma py_float_fixed:
  assumes "0 \<le> n"
  shows "py_float ((if negative then ''-'' else []) @ fixed k n)
     = Some (nearest_double negative n (10 ^ k))"
proof -
  from fixed_parts [OF assms, of k] obtain ip fp where
    fixed: "fixed k n = ip @ (if k = 0 then [] else CHR ''.'' # fp)"
    and ip: "ip \<noteq> []" "list_all is_digit ip" and fp: "list_all is_digit fp"
    and k: "length fp = k" and v: "decimal_value (ip @ fp) = n"
    by blast
  let ?body = "ip @ (if k = 0 then [] else CHR ''.'' # fp)"
  let ?text = "(if negative then ''-'' else []) @ ?body"
  have plain: "\<And>c. c \<in> set ip \<or> c \<in> set fp \<Longrightarrow> is_digit c"
    using ip(2) fp by (auto simp: list_all_iff)
  have "CHR ''_'' \<notin> set ?text"
    using plain is_digit_plain by auto
  then have under: "remove_underscores (CHR 0x00) ?text = Some ?text"
    by (rule remove_underscores_plain) simp
  have first: "is_digit (hd ip)" using ip by (cases ip) simp_all
  have last: "is_digit (last ?body)"
    using ip fp k by (cases "k = 0") (auto simp: list_all_iff)
  have "?text \<noteq> []" using ip by simp
  moreover have "\<not> is_space (hd ?text)"
    using first ip(1) is_digit_plain [of "hd ip"] by (auto simp: is_space_def)
  moreover have "\<not> is_space (last ?text)"
    using last ip(1) is_digit_plain [of "last ?body"] by auto
  ultimately have strip: "strip ?text = ?text" by (rule strip_plain)
  have sign: "take_sign ?text = (negative, ?body)"
    using first ip(1) is_digit_plain [of "hd ip"]
    by (cases ip) (auto simp: take_sign_def)
  have "hd (lower ?body) = hd ip"
    using first ip(1) is_digit_plain [of "hd ip"] by (cases ip) (auto simp: lower_def)
  then have word: "lower ?body \<noteq> ''inf''" "lower ?body \<noteq> ''infinity''" "lower ?body \<noteq> ''nan''"
    using first by (auto simp: is_digit_def)
  have "parse_decimal negative ?body = Some (nearest_double negative n (10 ^ k))"
    using parse_decimal_fixed [OF ip fp, of negative] k v by simp
  then show ?thesis
    unfolding fixed py_float_def under by (simp add: strip sign word Let_def)
qed

lemma py_float_format_f:
  assumes "finite_ok x"
  shows "py_float (format_f k x) = Some (py_round x k)"
proof (cases x)
  case (Double negative m e)
  with assms have "0 \<le> decimals k m e" by (simp add: finite_ok_def decimals_nonneg)
  then show ?thesis using Double by (simp add: py_float_fixed)
next
  case (Infinite negative)
  have "py_float ''inf'' = Some (Infinite False)" "py_float ''-inf'' = Some (Infinite True)"
    by code_simp+
  then show ?thesis using Infinite by (cases negative) simp_all
next
  case NaN
  have "py_float ''nan'' = Some NaN" by code_simp
  then show ?thesis using NaN by simp
qed


lemma format_measure_float:
  assumes "py_int s = None" and "py_float s = Some x"
  shows "format_measure (Some s)
     = Inr (VFloat (if float_less x 10 1 then py_round (py_round x 2) 2
                    else py_round (py_round x 1) 1))"
proof -
  have ok: "finite_ok (py_round x k)" for k
    using py_float_ok [OF assms(2)] by (rule py_round_ok)
  show ?thesis
    using assms by (simp add: format_measure_def py_float_format_f [OF ok])
qed

lemma format_measure_cases:
  "format_measure (Some s) = Inr
     (case py_int s of
        Some n \<Rightarrow> VInt n
      | None \<Rightarrow>
          (case py_float s of
             Some x \<Rightarrow> VFloat (if float_less x 10 1 then py_round (py_round x 2) 2
                               else py_round (py_round x 1) 1)
           | None \<Rightarrow> if s = ''on'' then VBool True
                     else if s = ''off'' then VBool False else VStr s))"
proof (cases "py_int s")
  case (Some n)
  then show ?thesis by (simp add: format_measure_def)
next
  case None
  show ?thesis
  proof (cases "py_float s")
    case (Some x)
    with None format_measure_float [of s x] show ?thesis by simp
  next
    case no_float: None
    with None show ?thesis by (simp add: format_measure_def)
  qed
qed

lemma format_measure_total: "\<exists>v. format_measure (Some s) = Inr v"
  using format_measure_cases [of s] by blast

text \<open>C3, as amended.  For every string, \<^verbatim>\<open>_format_measure\<close> returns the integer
  when the string parses as an integer; otherwise, when it parses as a float,
  the float rounded to two decimals if the value itself, with its sign, is
  below 10, and to one decimal otherwise (rounded by \<^verbatim>\<open>round\<close> and once more by the
  formatting, which the second \<open>py_round\<close> stands for); otherwise the truth
  values for \<^verbatim>\<open>on\<close> and \<^verbatim>\<open>off\<close>; otherwise the text unchanged.  The examples of the
  claim follow: 2, 2.35, 12.3, true and false.\<close>

theorem format_measure_of_string:
  "format_measure (Some s) = Inr
     (case py_int s of
        Some n \<Rightarrow> VInt n
      | None \<Rightarrow>
          (case py_float s of
             Some x \<Rightarrow> VFloat (if float_less x 10 1 then py_round (py_round x 2) 2
                               else py_round (py_round x 1) 1)
           | None \<Rightarrow> if s = ''on'' then VBool True
                     else if s = ''off'' then VBool False else VStr s))
   \<and> format_measure (Some ''2'') = Inr (VInt 2)
   \<and> format_measure (Some ''2.345'') = Inr (VFloat (nearest_double False 235 100))
   \<and> format_measure (Some ''12.34'') = Inr (VFloat (nearest_double False 123 10))
   \<and> format_measure (Some ''on'') = Inr (VBool True)
   \<and> format_measure (Some ''off'') = Inr (VBool False)"
proof -
  have "format_measure (Some ''2'') = Inr (VInt 2)" by code_simp
  moreover have "format_measure (Some ''2.345'') = Inr (VFloat (nearest_double False 235 100))"
    by code_simp
  moreover have "format_measure (Some ''12.34'') = Inr (VFloat (nearest_double False 123 10))"
    by code_simp
  moreover have "format_measure (Some ''on'') = Inr (VBool True)" by code_simp
  moreover have "format_measure (Some ''off'') = Inr (VBool False)" by code_simp
  ultimately show ?thesis using format_measure_cases [of s] by blast
qed

lemma negative_reading:
  "py_int ''-12.34'' = None \<and> py_float ''-12.34'' = Some (nearest_double True 1234 100)
   \<and> float_less (nearest_double True 1234 100) 10 1
   \<and> py_round (py_round (nearest_double True 1234 100) 2) 2 = nearest_double True 1234 100"
  by code_simp

theorem format_measure_of_string_witness:
  "format_measure (Some ''-12.34'') = Inr (VFloat (nearest_double True 1234 100))"
  using format_measure_of_string [of "''-12.34''", THEN conjunct1] negative_reading
  by simp

text \<open>C3 as stated fails: the reading \<^verbatim>\<open>-12.34\<close> has magnitude 12.34, which is
  not below 10, yet it is rounded to two decimals and stays \<open>-12.34\<close>; rounding
  to one decimal would give \<open>-12.3\<close>.\<close>

theorem format_measure_magnitude_counterexample:
  "py_int ''-12.34'' = None
   \<and> py_float ''-12.34'' = Some (nearest_double True 1234 100)
   \<and> \<not> float_less (nearest_double False 1234 100) 10 1
   \<and> format_measure (Some ''-12.34'') = Inr (VFloat (nearest_double True 1234 100))
   \<and> nearest_double True 1234 100 \<noteq> nearest_double True 123 10"
  by code_simp


subsection \<open>The water pressure\<close>

lemma ebind_simps [simp]: "ebind (Inr x) f = f x" "ebind (Inl e) f = Inl e"
  by (simp_all add: ebind_def)

lemma not_suffixed:
  "n @ ''_interval'' \<noteq> ''water_pressure''" "n @ ''_cumulative'' \<noteq> ''water_pressure''"
  "n @ ''_interval_cumulative'' \<noteq> ''water_pressure''"
proof -
  have "rev (n @ ''_interval'') \<noteq> rev ''water_pressure''" by simp
  then show "n @ ''_interval'' \<noteq> ''water_pressure''" by metis
  have "rev (n @ ''_cumulative'') \<noteq> rev ''water_pressure''" by simp
  then show "n @ ''_cumulative'' \<noteq> ''water_pressure''" by metis
  have "rev (n @ ''_interval_cumulative'') \<noteq> rev ''water_pressure''" by simp
  then show "n @ ''_interval_cumulative'' \<noteq> ''water_pressure''" by metis
qed

lemma map_of_update_other: "k \<noteq> k' \<Longrightarrow> map_of (AList.update k' v d) k = map_of d k"
  by (simp add: update_conv')

lemma after_point_keeps:
  assumes "(case find_xml (log_locator ''interval_log'' m) a of
              None \<Rightarrow> Inr (n, d1)
            | Some el \<Rightarrow>
                ebind (format_measure (xml_text el)) (\<lambda>v.
                  Inr (n @ ''_interval'', AList.update (n @ ''_interval'') v d1))) = Inr r"
    and "(case find_xml (log_locator ''cumulative_log'' m) a of
            None \<Rightarrow> Inr (snd r)
          | Some el \<Rightarrow>
              ebind (format_measure (xml_text el)) (\<lambda>v.
                Inr (AList.update (fst r @ ''_cumulative'') v (snd r)))) = Inr d'"
  shows "map_of d' ''water_pressure'' = map_of d1 ''water_pressure''"
proof -
  have r: "map_of (snd r) ''water_pressure'' = map_of d1 ''water_pressure''"
    using assms(1)
    by (auto simp: ebind_Inr_iff map_of_update_other not_suffixed split: option.splits)
  have "fst r @ ''_cumulative'' \<noteq> ''water_pressure''" by (rule not_suffixed)
  then have "map_of d' ''water_pressure'' = map_of (snd r) ''water_pressure''"
    using assms(2)
    by (auto simp: ebind_Inr_iff map_of_update_other split: option.splits)
  with r show ?thesis by simp
qed

lemma measurement_round_parts:
  assumes "measurement_round legacy a entry d = Inr d'"
  shows "(point_log_value legacy a entry d = Inr None \<and> d' = d)
     \<or> (\<exists>d1. point_log_value legacy a entry d = Inr (Some d1)
            \<and> map_of d' ''water_pressure'' = map_of d1 ''water_pressure'')"
proof -
  from assms obtain after where p: "point_log_value legacy a entry d = Inr after"
    and rest: "(case after of
         None \<Rightarrow> Inr d
       | Some data_1 \<Rightarrow>
           ebind (case find_xml (log_locator ''interval_log'' (fst entry)) a of
                    None \<Rightarrow> Inr (snd entry, data_1)
                  | Some el \<Rightarrow>
                      ebind (format_measure (xml_text el)) (\<lambda>v.
                        Inr (snd entry @ ''_interval'',
                             AList.update (snd entry @ ''_interval'') v data_1)))
             (\<lambda>after_interval.
                case find_xml (log_locator ''cumulative_log'' (fst entry)) a of
                  None \<Rightarrow> Inr (snd after_interval)
                | Some el \<Rightarrow>
                    ebind (format_measure (xml_text el)) (\<lambda>v.
                      Inr (AList.update (fst after_interval @ ''_cumulative'') v
                             (snd after_interval))))) = Inr d'"
    unfolding measurement_round_def by (auto simp: ebind_Inr_iff)
  show ?thesis
  proof (cases after)
    case None
    with p rest show ?thesis by simp
  next
    case (Some d1)
    with rest obtain r where
      "(case find_xml (log_locator ''interval_log'' (fst entry)) a of
              None \<Rightarrow> Inr (snd entry, d1)
            | Some el \<Rightarrow>
                ebind (format_measure (xml_text el)) (\<lambda>v.
                  Inr (snd entry @ ''_interval'', AList.update (snd entry @ ''_interval'') v d1)))
        = Inr r"
      and "(case find_xml (log_locator ''cumulative_log'' (fst entry)) a of
            None \<Rightarrow> Inr (snd r)
          | Some el \<Rightarrow>
              ebind (format_measure (xml_text el)) (\<lambda>v.
                Inr (AList.update (fst r @ ''_cumulative'') v (snd r)))) = Inr d'"
      by (auto simp: ebind_Inr_iff)
    then have "map_of d' ''water_pressure'' = map_of d1 ''water_pressure''"
      by (rule after_point_keeps)
    with p Some show ?thesis by simp
  qed
qed

lemma measurement_round_other:
  assumes "measurement_round legacy a entry d = Inr d'"
    and "fst entry \<noteq> ''central_heater_water_pressure''" and "snd entry \<noteq> ''water_pressure''"
  shows "map_of d' ''water_pressure'' = map_of d ''water_pressure''"
proof -
  have "point_log_value legacy a entry d = Inr (Some d1) \<Longrightarrow>
        map_of d1 ''water_pressure'' = map_of d ''water_pressure''" for d1
    using assms(2,3) unfolding point_log_value_def
    by (auto simp: ebind_Inr_iff map_of_update_other split: option.splits if_splits)
  then show ?thesis using measurement_round_parts [OF assms(1)] by auto
qed

lemma measurement_round_pressure:
  assumes "measurement_round legacy a (''central_heater_water_pressure'', ''water_pressure'') d
           = Inr d'"
  shows "map_of d' ''water_pressure'' = pressure_kept a (map_of d ''water_pressure'')"
proof -
  let ?entry = "(''central_heater_water_pressure'', ''water_pressure'')"
  have skipped: "point_log_value legacy a ?entry d = Inr None \<Longrightarrow>
      pressure_kept a (map_of d ''water_pressure'') = map_of d ''water_pressure''"
    unfolding point_log_value_def pressure_kept_def pressure_reading_def
    by (auto simp: ebind_Inr_iff float_arg_def need_def split: option.splits if_splits)
  have kept: "point_log_value legacy a ?entry d = Inr (Some d1) \<Longrightarrow>
      map_of d1 ''water_pressure'' = pressure_kept a (map_of d ''water_pressure'')" for d1
    unfolding point_log_value_def pressure_kept_def pressure_reading_def
    by (auto simp: ebind_Inr_iff float_arg_def need_def update_conv'
        split: option.splits if_splits)
  from measurement_round_parts [OF assms] skipped kept show ?thesis by auto
qed


lemma for_each_append:
  "for_each body (xs @ ys) acc = ebind (for_each body xs acc) (for_each body ys)"
proof (induction xs arbitrary: acc)
  case Nil
  show ?case by simp
next
  case (Cons x xs)
  show ?case by (cases "body x acc") (simp_all add: Cons.IH)
qed

lemma DEVICE_MEASUREMENTS_split:
  "DEVICE_MEASUREMENTS = take 14 DEVICE_MEASUREMENTS
     @ [(''central_heater_water_pressure'', ''water_pressure'')] @ drop 15 DEVICE_MEASUREMENTS
   \<and> (\<forall>entry \<in> set (take 14 DEVICE_MEASUREMENTS) \<union> set (drop 15 DEVICE_MEASUREMENTS).
         fst entry \<noteq> ''central_heater_water_pressure'' \<and> snd entry \<noteq> ''water_pressure'')"
  by (simp add: DEVICE_MEASUREMENTS_def)

lemma other_rounds:
  assumes "for_each (measurement_round legacy a) entries d = Inr d'"
    and "\<forall>entry \<in> set entries.
           fst entry \<noteq> ''central_heater_water_pressure'' \<and> snd entry \<noteq> ''water_pressure''"
  shows "map_of d' ''water_pressure'' = map_of d ''water_pressure''"
proof (rule for_each_invariant
    [where P = "\<lambda>x. map_of x ''water_pressure'' = map_of d ''water_pressure''", OF assms(1)])
  show "map_of d ''water_pressure'' = map_of d ''water_pressure''" ..
next
  fix x b b'
  assume "x \<in> set entries" and "map_of b ''water_pressure'' = map_of d ''water_pressure''"
    and "measurement_round legacy a x b = Inr b'"
  then show "map_of b' ''water_pressure'' = map_of d ''water_pressure''"
    using measurement_round_other [of legacy a x b b'] assms(2) by simp
qed

lemma appliance_rounds:
  assumes "for_each (measurement_round legacy a) DEVICE_MEASUREMENTS d = Inr d'"
  shows "map_of d' ''water_pressure'' = pressure_kept a (map_of d ''water_pressure'')"
proof -
  let ?pre = "take 14 DEVICE_MEASUREMENTS" and ?post = "drop 15 DEVICE_MEASUREMENTS"
  let ?entry = "(''central_heater_water_pressure'', ''water_pressure'')"
  have "for_each (measurement_round legacy a) (?pre @ [?entry] @ ?post) d = Inr d'"
    using assms DEVICE_MEASUREMENTS_split by simp
  then obtain d1 d2 where pre: "for_each (measurement_round legacy a) ?pre d = Inr d1"
    and mid: "measurement_round legacy a ?entry d1 = Inr d2"
    and post: "for_each (measurement_round legacy a) ?post d2 = Inr d'"
    by (auto simp: for_each_append ebind_Inr_iff)
  have "map_of d1 ''water_pressure'' = map_of d ''water_pressure''"
    using pre DEVICE_MEASUREMENTS_split by (intro other_rounds [OF pre]) simp
  moreover have "map_of d2 ''water_pressure'' = pressure_kept a (map_of d1 ''water_pressure'')"
    using mid by (rule measurement_round_pressure)
  moreover have "map_of d' ''water_pressure'' = map_of d2 ''water_pressure''"
    using post DEVICE_MEASUREMENTS_split by (intro other_rounds [OF post]) simp
  ultimately show ?thesis by simp
qed

lemma all_appliance_rounds:
  assumes "for_each (\<lambda>appliance. for_each (measurement_round legacy appliance)
                        DEVICE_MEASUREMENTS) els d = Inr d'"
  shows "map_of d' ''water_pressure'' = fold pressure_kept els (map_of d ''water_pressure'')"
  using assms
proof (induction els arbitrary: d)
  case Nil
  then show ?case by simp
next
  case (Cons a els)
  from Cons.prems obtain d1 where
    first: "for_each (measurement_round legacy a) DEVICE_MEASUREMENTS d = Inr d1"
    and rest: "for_each (\<lambda>appliance. for_each (measurement_round legacy appliance)
                        DEVICE_MEASUREMENTS) els d1 = Inr d'"
    by (auto simp: ebind_Inr_iff)
  show ?case using Cons.IH [OF rest] appliance_rounds [OF first] by simp
qed

lemma unrealistic_round:
  assumes "pressure_reading a = Some (Some t)" and "py_float t = Some x"
    and "float_greater x 7 2"
  shows "measurement_round legacy a (''central_heater_water_pressure'', ''water_pressure'') d
         = Inr d"
  using assms
  by (auto simp: measurement_round_def point_log_value_def pressure_reading_def float_arg_def
      need_def split: option.splits)

text \<open>C4.  When \<^verbatim>\<open>get_appliance_data\<close> returns, the key \<^verbatim>\<open>water_pressure\<close> of its
  data is what the water-pressure readings of the appliance elements leave, one
  after the other, starting from no key.  A reading strictly above 3.5 leaves
  the key as it was, so that with one element there is no key, and the round
  of the loop ends without an error and with the data unchanged; a reading of
  at most 3.5 puts the formatted reading under the key.\<close>

theorem water_pressure_above_3_5_omitted:
  "(device_elements dev_id s = Inr appliances \<longrightarrow> get_appliance_data dev_id s = Inr data \<longrightarrow>
      map_of data ''water_pressure'' = fold pressure_kept appliances None)
   \<and> (pressure_reading appliance = Some (Some reading) \<longrightarrow> py_float reading = Some x \<longrightarrow>
        (if float_greater x 7 2
         then pressure_kept appliance before = before
            \<and> measurement_round legacy appliance
                  (''central_heater_water_pressure'', ''water_pressure'') data_0 = Inr data_0
         else \<exists>v. format_measure (Some reading) = Inr v
            \<and> pressure_kept appliance before = Some v))"
proof -
  have "map_of data ''water_pressure'' = fold pressure_kept appliances None"
    if "device_elements dev_id s = Inr appliances" and "get_appliance_data dev_id s = Inr data"
    using that all_appliance_rounds [of "self_smile_legacy s" appliances "[]" data]
    by (simp add: get_appliance_data_def)
  moreover have "pressure_kept appliance before = before
      \<and> measurement_round legacy appliance
            (''central_heater_water_pressure'', ''water_pressure'') data_0 = Inr data_0"
    if "pressure_reading appliance = Some (Some reading)" and "py_float reading = Some x"
      and "float_greater x 7 2"
    using that unrealistic_round [of appliance reading x legacy data_0]
    by (simp add: pressure_kept_def)
  moreover have "\<exists>v. format_measure (Some reading) = Inr v
       \<and> pressure_kept appliance before = Some v"
    if "pressure_reading appliance = Some (Some reading)" and "py_float reading = Some x"
      and "\<not> float_greater x 7 2"
  proof -
    obtain v where "format_measure (Some reading) = Inr v"
      using format_measure_total [of reading] by blast
    then show ?thesis using that by (simp add: pressure_kept_def)
  qed
  ultimately show ?thesis by simp
qed

lemma boiler_elements:
  "device_elements (IdStr ''heater'') (boiler ''4.0'') = Inr [heater ''4.0'']
   \<and> device_elements (IdStr ''heater'') (boiler ''2.1'') = Inr [heater ''2.1'']"
  by code_simp

lemma boiler_data:
  "get_appliance_data (IdStr ''heater'') (boiler ''4.0'')
     = Inr [(''water_temperature'', VFloat (nearest_double False 45 1))]
   \<and> get_appliance_data (IdStr ''heater'') (boiler ''2.1'')
     = Inr [(''water_temperature'', VFloat (nearest_double False 45 1)),
            (''water_pressure'', VFloat (nearest_double False 21 10))]"
  by code_simp

lemma heater_readings:
  "pressure_reading (heater ''4.0'') = Some (Some ''4.0'')
   \<and> py_float ''4.0'' = Some (nearest_double False 4 1)
   \<and> float_greater (nearest_double False 4 1) 7 2
   \<and> pressure_reading (heater ''2.1'') = Some (Some ''2.1'')
   \<and> py_float ''2.1'' = Some (nearest_double False 21 10)
   \<and> \<not> float_greater (nearest_double False 21 10) 7 2"
  by code_simp

theorem water_pressure_above_3_5_omitted_witness:
  "get_appliance_data (IdStr ''heater'') (boiler ''4.0'')
     = Inr [(''water_temperature'', VFloat (nearest_double False 45 1))]
   \<and> fold pressure_kept [heater ''4.0''] None = None
   \<and> measurement_round False (heater ''4.0'')
        (''central_heater_water_pressure'', ''water_pressure'') [] = Inr []
   \<and> get_appliance_data (IdStr ''heater'') (boiler ''2.1'')
     = Inr [(''water_temperature'', VFloat (nearest_double False 45 1)),
            (''water_pressure'', VFloat (nearest_double False 21 10))]
   \<and> fold pressure_kept [heater ''2.1''] None = Some (VFloat (nearest_double False 21 10))
   \<and> (\<exists>v. format_measure (Some ''2.1'') = Inr v \<and> pressure_kept (heater ''2.1'') None = Some v)"
  using water_pressure_above_3_5_omitted
      [of "IdStr ''heater''" "boiler ''4.0''" "[heater ''4.0'']"
          "[(''water_temperature'', VFloat (nearest_double False 45 1))]", THEN conjunct1]
    water_pressure_above_3_5_omitted
      [of "IdStr ''heater''" "boiler ''2.1''" "[heater ''2.1'']"
          "[(''water_temperature'', VFloat (nearest_double False 45 1)),
            (''water_pressure'', VFloat (nearest_double False 21 10))]", THEN conjunct1]
    water_pressure_above_3_5_omitted
      [of _ _ _ _ "heater ''4.0''" "''4.0''" "nearest_double False 4 1" None False "[]",
       THEN conjunct2]
    water_pressure_above_3_5_omitted
      [of _ _ _ _ "heater ''2.1''" "''2.1''" "nearest_double False 21 10" None,
       THEN conjunct2]
    boiler_elements boiler_data heater_readings
  by simp


end
